theory Spec2Isabelle
  imports Main "HOL-Library.Log_Nat" "HOL-Library.AList"
begin

section \<open>JavaScript numbers\<close>

text \<open>
  A JavaScript number is an IEEE 754 binary64 value. The finite ones are kept as the
  real number they denote; every arithmetic result is rounded back to the nearest
  representable value (ties to even), with gradual underflow and overflow to infinity.
  The two zeros are identified: the program cannot tell them apart (it never divides,
  and \<open>!x\<close>, \<open>*\<close>, \<open>-\<close> and the comparisons treat them alike).
\<close>

datatype jsnum = NaN | PInf | NInf | Fin real

definition pow2 :: "int \<Rightarrow> real" where
  "pow2 e = (if 0 \<le> e then 2 ^ nat e else 1 / 2 ^ nat (- e))"

definition ilog2 :: "real \<Rightarrow> int" where
  \<comment> \<open>for \<open>q > 0\<close>: the exponent \<open>e\<close> with \<open>2^e \<le> q < 2^(e+1)\<close>\<close>
  "ilog2 q = (if 1 \<le> q then bitlen \<lfloor>q\<rfloor> - 1 else - bitlen (\<lceil>1 / q\<rceil> - 1))"

definition round_half_even :: "real \<Rightarrow> int" where
  "round_half_even x = (let f = \<lfloor>x\<rfloor>; r = x - of_int f
     in if r < 1 / 2 then f else if 1 / 2 < r then f + 1 else if even f then f else f + 1)"

definition round_mag :: "real \<Rightarrow> real" where
  \<comment> \<open>a positive magnitude rounded to 53 significant bits, least exponent -1022\<close>
  "round_mag a = (let l = ilog2 a; e = (if l < - 1022 then - 1022 else l); u = pow2 (e - 52)
                  in of_int (round_half_even (a / u)) * u)"

definition fl :: "real \<Rightarrow> jsnum" where
  \<comment> \<open>the Number value for a mathematical value\<close>
  "fl q = (if q = 0 then Fin 0
     else if 0 < q then (if pow2 1024 \<le> round_mag q then PInf else Fin (round_mag q))
     else (if pow2 1024 \<le> round_mag (- q) then NInf else Fin (- round_mag (- q))))"

fun js_mul :: "jsnum \<Rightarrow> jsnum \<Rightarrow> jsnum" where
  "js_mul NaN y = NaN"
| "js_mul x NaN = NaN"
| "js_mul (Fin a) (Fin b) = fl (a * b)"
| "js_mul (Fin a) PInf = (if a = 0 then NaN else if 0 < a then PInf else NInf)"
| "js_mul (Fin a) NInf = (if a = 0 then NaN else if 0 < a then NInf else PInf)"
| "js_mul PInf (Fin b) = (if b = 0 then NaN else if 0 < b then PInf else NInf)"
| "js_mul NInf (Fin b) = (if b = 0 then NaN else if 0 < b then NInf else PInf)"
| "js_mul PInf PInf = PInf"
| "js_mul PInf NInf = NInf"
| "js_mul NInf PInf = NInf"
| "js_mul NInf NInf = PInf"



text \<open>The values a price can arrive as: \<open>null\<close>, \<open>undefined\<close> or a number.\<close>

datatype jsval = JNull | JUndefined | JNum jsnum

fun truthy :: "jsval \<Rightarrow> bool" where
  "truthy JNull = False"
| "truthy JUndefined = False"
| "truthy (JNum NaN) = False"
| "truthy (JNum (Fin q)) = (q \<noteq> 0)"
| "truthy (JNum x) = True"

fun to_number :: "jsval \<Rightarrow> jsnum" where
  "to_number JNull = Fin 0"
| "to_number JUndefined = NaN"
| "to_number (JNum x) = x"

section \<open>Pricing configuration and the pricing grid\<close>

datatype condition = NM | EX' | VG | G

record tier =
  tier_name :: string
  lowerBound :: jsnum
  multiplier :: jsnum

text \<open>
  The settings object. The pricer's own initial state has the two multiplier tables, the
  credit multiplier and \<open>darkMode\<close>; the settings panel saves the base-price modifier,
  the thresholds and the tiers as well, so these are optional. A table entry that is
  missing reads as \<open>undefined\<close>.
\<close>

record settings =
  basePriceModifier :: "jsnum option"
  conditionMultipliers :: "condition \<rightharpoonup> jsnum"
  buyCashMultipliers :: "condition \<rightharpoonup> jsnum"
  creditMultiplier :: jsnum
  bulkThreshold :: "jsnum option"
  highEndThreshold :: "jsnum option"
  pricingTiers :: "tier list option"
  darkMode :: bool

definition entry :: "(condition \<rightharpoonup> jsnum) \<Rightarrow> condition \<Rightarrow> jsval" where
  \<comment> \<open>\<open>table[condition]\<close>\<close>
  "entry table c = (case table c of None \<Rightarrow> JUndefined | Some x \<Rightarrow> JNum x)"

record pricing_row =
  condition :: condition
  price :: jsnum
  buyCash :: jsnum
  buyCredit :: jsnum

definition conditions :: "condition list" where
  "conditions = [NM, EX', VG, G]"

definition pricing_row_for :: "settings \<Rightarrow> jsval \<Rightarrow> condition \<Rightarrow> pricing_row" where
  \<comment> \<open>the body of the \<open>forEach\<close> over the conditions\<close>
  "pricing_row_for s tcgplayerBasePrice c =
     (let conditionPrice = js_mul (to_number tcgplayerBasePrice)
                                  (to_number (entry (conditionMultipliers s) c));
          cash = js_mul conditionPrice (to_number (entry (buyCashMultipliers s) c));
          credit = js_mul cash (creditMultiplier s)
      in \<lparr>condition = c, price = conditionPrice, buyCash = cash, buyCredit = credit\<rparr>)"

definition calculatePricingGrid :: "settings \<Rightarrow> jsval \<Rightarrow> pricing_row list option" where
  "calculatePricingGrid s tcgplayerBasePrice =
     (if \<not> truthy tcgplayerBasePrice then None
      else Some (map (pricing_row_for s tcgplayerBasePrice) conditions))"

definition rowData :: "settings \<Rightarrow> jsval \<Rightarrow> condition \<Rightarrow> pricing_row option" where
  \<comment> \<open>the table body: \<open>pricingGrid?.find(row => row.condition === condition)\<close>\<close>
  "rowData s tcgplayerBasePrice c =
     (case calculatePricingGrid s tcgplayerBasePrice of
        None \<Rightarrow> None
      | Some pricingGrid \<Rightarrow> List.find (\<lambda>row. condition row = c) pricingGrid)"

text \<open>
  A decimal literal of the source denotes \<open>fl\<close> of its decimal value; a literal whose
  value is a binary fraction (\<open>1.0\<close>, \<open>0.75\<close>, \<open>0.5\<close>, \<open>3.0\<close>) is written as that value.
\<close>

definition pricer_defaults :: settings where
  \<comment> \<open>the initial settings state of the pricer component\<close>
  "pricer_defaults = \<lparr>
     basePriceModifier = None,
     conditionMultipliers = [NM \<mapsto> Fin 1, EX' \<mapsto> fl (9 / 10), VG \<mapsto> Fin (3 / 4), G \<mapsto> Fin (1 / 2)],
     buyCashMultipliers = [NM \<mapsto> fl (85 / 100), EX' \<mapsto> fl (77 / 100),
                           VG \<mapsto> fl (6 / 10), G \<mapsto> fl (3 / 10)],
     creditMultiplier = fl (13 / 10),
     bulkThreshold = None,
     highEndThreshold = None,
     pricingTiers = None,
     darkMode = False\<rparr>"



subsection \<open>The tier rule as the specification words it\<close>



section \<open>Strings, subtraction and \<open>parseInt\<close>\<close>

text \<open>
  A JavaScript string is a sequence of UTF-16 code units; \<open>length\<close> counts them.
  \<open>ascii\<close> embeds a literal of the source.
\<close>

type_synonym jsstring = "nat list"

definition ascii :: "string \<Rightarrow> jsstring" where
  "ascii s = map of_char s"

fun js_sub :: "jsnum \<Rightarrow> jsnum \<Rightarrow> jsnum" where
  "js_sub NaN y = NaN"
| "js_sub x NaN = NaN"
| "js_sub (Fin a) (Fin b) = fl (a - b)"
| "js_sub (Fin a) PInf = NInf"
| "js_sub (Fin a) NInf = PInf"
| "js_sub PInf (Fin b) = PInf"
| "js_sub NInf (Fin b) = NInf"
| "js_sub PInf PInf = NaN"
| "js_sub PInf NInf = PInf"
| "js_sub NInf PInf = NInf"
| "js_sub NInf NInf = NaN"

definition isWhiteSpace :: "nat \<Rightarrow> bool" where
  \<comment> \<open>white space and line terminators, as \<open>parseInt\<close> skips them\<close>
  "isWhiteSpace c = (c \<in> {9, 10, 11, 12, 13, 32, 160, 5760, 8232, 8233, 8239, 8287, 12288, 65279}
                     \<or> (8192 \<le> c \<and> c \<le> 8202))"

definition isDigit :: "nat \<Rightarrow> bool" where
  "isDigit c = (48 \<le> c \<and> c \<le> 57)"

definition digits_value :: "nat list \<Rightarrow> int" where
  "digits_value ds = foldl (\<lambda>acc d. 10 * acc + int (d - 48)) 0 ds"

definition parseInt :: "jsstring \<Rightarrow> jsnum" where
  \<comment> \<open>\<open>parseInt(str, 10)\<close>: leading white space, an optional sign, then the longest run of
      decimal digits; \<open>NaN\<close> when there is no digit\<close>
  "parseInt str =
     (let s = dropWhile isWhiteSpace str;
          (negative, s') = (case s of
                              [] \<Rightarrow> (False, [])
                            | c # rest \<Rightarrow> if c = 45 then (True, rest)
                                         else if c = 43 then (False, rest) else (False, s));
          z = takeWhile isDigit s'
      in if z = [] then NaN
         else fl (if negative then - of_int (digits_value z) else of_int (digits_value z)))"

definition compareCollectorNumbers ::
    "(jsstring \<Rightarrow> jsstring \<Rightarrow> jsnum) \<Rightarrow> jsstring \<Rightarrow> jsstring \<Rightarrow> jsnum" where
  \<comment> \<open>the comparator handed to \<open>sort\<close>; \<open>localeCompare\<close> is the host's collation\<close>
  "compareCollectorNumbers localeCompare a b =
     (let numA = parseInt a; numB = parseInt b
      in if numA \<noteq> NaN \<and> numB \<noteq> NaN then js_sub numA numB else localeCompare a b)"

subsection \<open>The ordering rule as the specification words it\<close>

fun lex_compare :: "jsstring \<Rightarrow> jsstring \<Rightarrow> jsnum" where
  \<comment> \<open>lexicographic comparison on the raw strings\<close>
  "lex_compare [] [] = Fin 0"
| "lex_compare [] (y # ys) = Fin (- 1)"
| "lex_compare (x # xs) [] = Fin 1"
| "lex_compare (x # xs) (y # ys) =
     (if x < y then Fin (- 1) else if y < x then Fin 1 else lex_compare xs ys)"

definition spec_compare :: "jsstring list \<Rightarrow> jsstring \<Rightarrow> jsstring \<Rightarrow> jsnum" where
  \<comment> \<open>decided for the group: numeric when every value parses, otherwise lexicographic\<close>
  "spec_compare grp a b =
     (if \<forall>x \<in> set grp. parseInt x \<noteq> NaN then js_sub (parseInt a) (parseInt b)
      else lex_compare a b)"

section \<open>The component state\<close>

record card =
  name :: "jsstring option"
  set_code :: "jsstring option"
  set_name :: "jsstring option"
  collector_number :: "jsstring option"
  lang :: "jsstring option"
  finishes :: "jsstring list option"

record set_info =
  code :: jsstring
  set_info_name :: jsstring
  cards :: "card list"
  collectorNumbers :: "jsstring list"

datatype response = Ok "jsstring list" | Failed

text \<open>
  The state of the pricer component that the selection and the autocomplete handlers read
  and write, the two refs (\<open>cache\<close> is \<open>cacheRef.current\<close>, a \<open>Map\<close> in insertion
  order; \<open>debounceTimeout\<close> is \<open>debounceTimeoutRef.current\<close>), and what the host
  holds for the component: the pending timeouts, each with its id, the time it is due and
  the query of its callback, and the autocomplete requests sent and not yet answered.
  \<open>None\<close> is \<open>null\<close> or \<open>undefined\<close>.
\<close>

record state =
  searchTerm :: jsstring
  searchResults :: "card list"
  uniqueSets :: "set_info list"
  selectedSet :: "set_info option"
  availableCollectorNumbers :: "jsstring list"
  selectedCollectorNumber :: jsstring
  selectedCardVersion :: "card option"
  selectedLanguage :: "jsstring option"
  selectedFinish :: "jsstring option"
  availableLanguages :: "jsstring list"
  availableFinishes :: "jsstring list"
  suggestions :: "jsstring list"
  autocompleteLoading :: bool
  cache :: "(jsstring \<times> jsstring list) list"
  debounceTimeout :: "nat option"
  timers :: "(nat \<times> nat \<times> jsstring) list"
  nextTimer :: nat
  inflight :: "jsstring list"

definition initial_state :: state where
  "initial_state = \<lparr>
     searchTerm = [], searchResults = [], uniqueSets = [], selectedSet = None,
     availableCollectorNumbers = [], selectedCollectorNumber = [],
     selectedCardVersion = None, selectedLanguage = Some (ascii ''en''),
     selectedFinish = Some (ascii ''nonfoil''), availableLanguages = [],
     availableFinishes = [], suggestions = [], autocompleteLoading = False,
     cache = [], debounceTimeout = None, timers = [], nextTimer = 1, inflight = []\<rparr>"

section \<open>Suggestion cache and scheduler\<close>

definition maxCacheSize :: nat where
  "maxCacheSize = 50"

definition fetchAutocomplete_start :: "jsstring \<Rightarrow> state \<Rightarrow> state" where
  \<comment> \<open>\<open>fetchAutocomplete\<close> up to its \<open>await fetch(...)\<close>\<close>
  "fetchAutocomplete_start query s =
     (if length query < 3 then s\<lparr>suggestions := []\<rparr>
      else case map_of (cache s) query of
             Some cached \<Rightarrow>
               s\<lparr>cache := AList.update query cached (AList.delete query (cache s)),
                 suggestions := cached\<rparr>
           | None \<Rightarrow> s\<lparr>autocompleteLoading := True, inflight := inflight s @ [query]\<rparr>)"

definition evict_oldest :: "(jsstring \<times> jsstring list) list \<Rightarrow> (jsstring \<times> jsstring list) list" where
  \<comment> \<open>\<open>cache.delete(cache.keys().next().value)\<close>\<close>
  "evict_oldest c = (case c of [] \<Rightarrow> [] | (firstKey, v) # rest \<Rightarrow> AList.delete firstKey c)"

definition fetchAutocomplete_resolve :: "jsstring \<Rightarrow> response \<Rightarrow> state \<Rightarrow> state" where
  \<comment> \<open>\<open>fetchAutocomplete\<close> from the answer of its request on\<close>
  "fetchAutocomplete_resolve query r s =
     (case r of
        Ok results \<Rightarrow>
          (let c = (if maxCacheSize \<le> length (cache s) then evict_oldest (cache s) else cache s)
           in s\<lparr>cache := AList.update query results c, suggestions := results,
                autocompleteLoading := False, inflight := remove1 query (inflight s)\<rparr>)
      | Failed \<Rightarrow>
          s\<lparr>suggestions := [], autocompleteLoading := False,
            inflight := remove1 query (inflight s)\<rparr>)"

definition clearTimeout :: "nat \<Rightarrow> state \<Rightarrow> state" where
  "clearTimeout i s = s\<lparr>timers := filter (\<lambda>(j, due, q). j \<noteq> i) (timers s)\<rparr>"

definition debouncedAutocomplete :: "nat \<Rightarrow> jsstring \<Rightarrow> state \<Rightarrow> state" where
  \<comment> \<open>called at time \<open>now\<close>; timer ids are positive, so a stored id is truthy\<close>
  "debouncedAutocomplete now query s =
     (let s1 = (case debounceTimeout s of None \<Rightarrow> s | Some i \<Rightarrow> clearTimeout i s)
      in s1\<lparr>timers := timers s1 @ [(nextTimer s1, now + 750, query)],
            debounceTimeout := Some (nextTimer s1),
            nextTimer := Suc (nextTimer s1)\<rparr>)"

definition timerFires :: "nat \<Rightarrow> nat \<Rightarrow> state \<Rightarrow> state" where
  \<comment> \<open>the host runs the callback of timeout \<open>i\<close> at time \<open>now\<close>, if it is pending and due\<close>
  "timerFires now i s =
     (case List.find (\<lambda>(j, due, q). j = i \<and> due \<le> now) (timers s) of
        None \<Rightarrow> s
      | Some (j, due, q) \<Rightarrow>
          fetchAutocomplete_start q (s\<lparr>timers := filter (\<lambda>(j, due, q). j \<noteq> i) (timers s)\<rparr>))"

definition first_name :: "card list \<Rightarrow> jsstring" where
  \<comment> \<open>\<open>searchResults[0]?.name || ''\<close>\<close>
  "first_name cs = (case cs of [] \<Rightarrow> [] | c # _ \<Rightarrow> (case name c of None \<Rightarrow> [] | Some n \<Rightarrow> n))"

definition reset_selection :: "state \<Rightarrow> state" where
  \<comment> \<open>the run of setters that the handlers share to drop results and selection\<close>
  "reset_selection s = s\<lparr>searchResults := [], uniqueSets := [], selectedSet := None,
     selectedCollectorNumber := [], selectedCardVersion := None,
     selectedLanguage := Some (ascii ''en''), selectedFinish := Some (ascii ''nonfoil''),
     availableCollectorNumbers := [], availableLanguages := [], availableFinishes := []\<rparr>"

definition handleAutocompleteChange :: "nat \<Rightarrow> jsstring \<Rightarrow> state \<Rightarrow> state" where
  "handleAutocompleteChange now newValue s =
     (let s1 = s\<lparr>searchTerm := newValue\<rparr>;
          s2 = (if newValue \<noteq> first_name (searchResults s) \<and> searchResults s \<noteq> []
                then reset_selection s1 else s1)
      in if newValue \<noteq> [] then debouncedAutocomplete now newValue s2
         else s2\<lparr>suggestions := []\<rparr>)"

definition handleClear :: "state \<Rightarrow> state" where
  "handleClear s =
     (let s1 = (reset_selection s)\<lparr>searchTerm := [], suggestions := []\<rparr>
      in case debounceTimeout s1 of None \<Rightarrow> s1 | Some i \<Rightarrow> clearTimeout i s1)"

datatype event =
    Input nat jsstring
  | Timeout nat nat
  | Response jsstring response
  | Clear

fun step :: "event \<Rightarrow> state \<Rightarrow> state" where
  "step (Input now v) s = handleAutocompleteChange now v s"
| "step (Timeout now i) s = timerFires now i s"
| "step (Response q r) s = (if q \<in> set (inflight s) then fetchAutocomplete_resolve q r s else s)"
| "step Clear s = handleClear s"

definition run :: "event list \<Rightarrow> state \<Rightarrow> state" where
  "run evs s = fold step evs s"

fun burst_event :: "nat \<Rightarrow> event \<Rightarrow> bool" where
  \<comment> \<open>an event of a burst of typing that began at \<open>tfirst\<close>: an input that is not empty, or
      an attempt of the host to run a timeout, before \<open>tfirst + 750\<close>\<close>
  "burst_event tfirst (Input now v) = (v \<noteq> [] \<and> tfirst \<le> now \<and> now < tfirst + 750)"
| "burst_event tfirst (Timeout now i) = (tfirst \<le> now \<and> now < tfirst + 750)"
| "burst_event tfirst (Response q r) = False"
| "burst_event tfirst Clear = False"

fun input_of :: "event \<Rightarrow> (nat \<times> jsstring) option" where
  "input_of (Input now v) = Some (now, v)"
| "input_of (Timeout now i) = None"
| "input_of (Response q r) = None"
| "input_of Clear = None"

definition last_input :: "event list \<Rightarrow> nat \<times> jsstring \<Rightarrow> nat \<times> jsstring" where
  \<comment> \<open>time and value of the last input of a burst, \<open>d\<close> when it has none\<close>
  "last_input evs d = fold (\<lambda>e d. case input_of e of None \<Rightarrow> d | Some c \<Rightarrow> c) evs d"

definition timers_ok :: "state \<Rightarrow> bool" where
  \<comment> \<open>every pending timeout is the one the ref holds, and ids are not reused\<close>
  "timers_ok s = ((\<forall>(i, due, q) \<in> set (timers s). debounceTimeout s = Some i) \<and>
                  distinct (map fst (timers s)) \<and>
                  (\<forall>(i, due, q) \<in> set (timers s). i < nextTimer s) \<and>
                  (\<forall>i. debounceTimeout s = Some i \<longrightarrow> i < nextTimer s))"

definition cache_ok :: "state \<Rightarrow> bool" where
  "cache_ok s = (length (cache s) \<le> maxCacheSize \<and> distinct (map fst (cache s)))"

definition example_cache :: "(jsstring \<times> jsstring list) list" where
  \<comment> \<open>a full cache: fifty queries, the oldest first\<close>
  "example_cache = map (\<lambda>n. ([n, n, n], [[n]])) [0..<50]"

definition example_full :: state where
  "example_full = initial_state\<lparr>cache := example_cache, inflight := [[50, 50, 50]]\<rparr>"

definition cache_after_eviction :: "state \<Rightarrow> (jsstring \<times> jsstring list) list" where
  \<comment> \<open>the cache as \<open>fetchAutocomplete\<close> has it just before \<open>cache.set\<close>\<close>
  "cache_after_eviction s =
     (if maxCacheSize \<le> length (cache s) then evict_oldest (cache s) else cache s)"

definition snapshot ::
    "state \<Rightarrow> nat \<Rightarrow> (jsstring \<times> jsstring list) list \<Rightarrow> jsstring list \<Rightarrow> bool" where
  \<comment> \<open>what matters of a state for the cache: the next timer id, the cache and the
      requests in flight, the timers being in order\<close>
  "snapshot s n c w = (timers_ok s \<and> nextTimer s = n \<and> cache s = c \<and> inflight s = w)"

subsection \<open>Fifty-one queries, the last one requested twice\<close>

definition example_query :: "nat \<Rightarrow> jsstring" where
  \<comment> \<open>the queries \<open>q00\<close>, \<open>q01\<close>, \<open>q02\<close> and so on\<close>
  "example_query n = [113, 48 + n div 10, 48 + n mod 10]"

definition example_round :: "nat \<Rightarrow> event list" where
  \<comment> \<open>query \<open>n\<close> is typed, its timeout \<open>n\<close> runs when due, and the request is answered\<close>
  "example_round n =
     [Input (1000 * n) (example_query n), Timeout (1000 * n + 750) n,
      Response (example_query n) (Ok [example_query n])]"

definition example_fill :: "event list" where
  \<comment> \<open>fifty queries, \<open>q01\<close> to \<open>q50\<close>, each answered before the next is typed\<close>
  "example_fill = concat (map example_round [1..<51])"

definition example_answered :: "event list" where
  \<comment> \<open>then \<open>q00\<close> is typed and requested, a character is added and removed again, and
      \<open>q00\<close> is requested a second time before the first answer arrives\<close>
  "example_answered =
     example_fill @
     [Input 51000 (example_query 0), Timeout 51750 51,
      Input 52000 (example_query 0 @ [48]), Input 52100 (example_query 0), Timeout 52850 53,
      Response (example_query 0) (Ok [example_query 0])]"

definition example_duplicate :: "event list" where
  \<comment> \<open>and the second answer for \<open>q00\<close> arrives\<close>
  "example_duplicate = example_answered @ [Response (example_query 0) (Ok [example_query 0])]"

subsection \<open>Bursts and races\<close>

definition pending_only :: "nat \<Rightarrow> jsstring \<Rightarrow> state \<Rightarrow> bool" where
  \<comment> \<open>the one pending timeout is that of the call made at \<open>t\<close> for \<open>q\<close>\<close>
  "pending_only t q s =
     (timers_ok s \<and> (\<exists>i. debounceTimeout s = Some i \<and> timers s = [(i, t + 750, q)]))"

definition example_burst :: "event list" where
  \<comment> \<open>ten inputs, the prefixes of one query, ten time units apart\<close>
  "example_burst =
     [Input 0 (ascii ''b''), Input 10 (ascii ''bl''), Input 20 (ascii ''bla''),
      Input 30 (ascii ''blac''), Input 40 (ascii ''black''), Input 50 (ascii ''black ''),
      Input 60 (ascii ''black l''), Input 70 (ascii ''black lo''),
      Input 80 (ascii ''black lot''), Input 90 (ascii ''black lotu'')]"

definition example_emptied :: "event list" where
  \<comment> \<open>a burst that ends with the field emptied: \<open>abc\<close>, \<open>abcd\<close>, then the empty string\<close>
  "example_emptied = [Input 0 (ascii ''abc''), Input 40 (ascii ''abcd''), Input 90 []]"

definition example_race :: "event list" where
  \<comment> \<open>two fetches overlap; the answer to the older query arrives last\<close>
  "example_race =
     [Input 0 (ascii ''abc''), Timeout 750 1, Input 800 (ascii ''abcd''), Timeout 1550 2,
      Response (ascii ''abcd'') (Ok [ascii ''abcdef'']),
      Response (ascii ''abc'') (Ok [ascii ''abcxyz''])]"

section \<open>Variant selection\<close>

definition or_empty :: "jsstring option \<Rightarrow> jsstring" where
  \<comment> \<open>\<open>x || ''\<close>\<close>
  "or_empty x = (case x of None \<Rightarrow> [] | Some v \<Rightarrow> v)"

definition or_en :: "jsstring option \<Rightarrow> jsstring" where
  \<comment> \<open>\<open>x || 'en'\<close>: the empty string is falsy as well\<close>
  "or_en x = (case x of None \<Rightarrow> ascii ''en'' | Some v \<Rightarrow> if v = [] then ascii ''en'' else v)"

definition clean :: "jsstring \<Rightarrow> jsstring" where
  \<comment> \<open>\<open>.replace(/[\<dots>]/g, '')\<close> for the three star glyphs U+2605, U+2606 and U+2726\<close>
  "clean str = filter (\<lambda>c. c \<notin> {9733, 9734, 10022}) str"

definition set_add :: "'a \<Rightarrow> 'a list \<Rightarrow> 'a list" where
  \<comment> \<open>\<open>Set.prototype.add\<close>, the set kept in insertion order\<close>
  "set_add x xs = (if x \<in> set xs then xs else xs @ [x])"

definition first :: "'a list \<Rightarrow> 'a option" where
  \<comment> \<open>\<open>xs[0]\<close>\<close>
  "first xs = (case xs of [] \<Rightarrow> None | x # _ \<Rightarrow> Some x)"

definition matchingCards :: "state \<Rightarrow> jsstring \<Rightarrow> jsstring \<Rightarrow> card list" where
  "matchingCards s setCode collectorNumber =
     filter (\<lambda>card. or_empty (set_code card) = setCode \<and>
                     clean (or_empty (collector_number card)) = collectorNumber)
            (searchResults s)"

definition languages_of :: "card list \<Rightarrow> jsstring list" where
  "languages_of cs = fold (\<lambda>card langs. set_add (or_en (lang card)) langs) cs []"

definition finishes_of :: "card list \<Rightarrow> jsstring list" where
  "finishes_of cs =
     fold (\<lambda>card fs. case finishes card of None \<Rightarrow> fs | Some cf \<Rightarrow> fold set_add cf fs) cs []"

definition defaultLang :: "jsstring list \<Rightarrow> jsstring option" where
  "defaultLang langArray =
     (if ascii ''en'' \<in> set langArray then Some (ascii ''en'') else first langArray)"

definition defaultFinish :: "jsstring list \<Rightarrow> jsstring option" where
  "defaultFinish finishArray =
     (if ascii ''nonfoil'' \<in> set finishArray then Some (ascii ''nonfoil'') else first finishArray)"

definition finishMatch :: "card \<Rightarrow> jsstring option \<Rightarrow> bool" where
  \<comment> \<open>\<open>card.finishes && card.finishes.includes(finish)\<close>\<close>
  "finishMatch c finish =
     (case finishes c of
        None \<Rightarrow> False
      | Some fs \<Rightarrow> (case finish of None \<Rightarrow> False | Some f \<Rightarrow> f \<in> set fs))"

definition defaultCard :: "card list \<Rightarrow> card option" where
  \<comment> \<open>the first card that matches both defaults\<close>
  "defaultCard matching =
     List.find (\<lambda>card. lang card = defaultLang (languages_of matching) \<and>
                        finishMatch card (defaultFinish (finishes_of matching))) matching"

definition applyDefaults :: "card list \<Rightarrow> state \<Rightarrow> state" where
  \<comment> \<open>the block both selection handlers run when \<open>matchingCards.length > 0\<close>\<close>
  "applyDefaults matching s =
     s\<lparr>availableLanguages := languages_of matching,
       availableFinishes := finishes_of matching,
       selectedLanguage := defaultLang (languages_of matching),
       selectedFinish := defaultFinish (finishes_of matching),
       selectedCardVersion := (case defaultCard matching of
                                 Some c \<Rightarrow> Some c
                               | None \<Rightarrow> first matching)\<rparr>"

definition handleSetSelect ::
    "(jsstring \<Rightarrow> jsstring \<Rightarrow> jsnum) \<Rightarrow>
     ((jsstring \<Rightarrow> jsstring \<Rightarrow> jsnum) \<Rightarrow> jsstring list \<Rightarrow> jsstring list) \<Rightarrow>
     jsstring \<Rightarrow> state \<Rightarrow> state" where
  \<comment> \<open>\<open>localeCompare\<close> and \<open>array_sort\<close> (\<open>Array.prototype.sort\<close>) are the host's\<close>
  "handleSetSelect localeCompare array_sort setCode s =
     (let selectedSetInfo = List.find (\<lambda>st. code st = setCode) (uniqueSets s);
          s1 = s\<lparr>selectedSet := selectedSetInfo\<rparr>
      in case selectedSetInfo of
           None \<Rightarrow> s1
         | Some info \<Rightarrow>
             (let numbers = array_sort (compareCollectorNumbers localeCompare) (collectorNumbers info);
                  s2 = s1\<lparr>availableCollectorNumbers := numbers\<rparr>;
                  lowestCollectorNumber = or_empty (first numbers)
              in if lowestCollectorNumber \<noteq> [] then
                   (let s3 = s2\<lparr>selectedCollectorNumber := lowestCollectorNumber\<rparr>;
                        matching = matchingCards s (code info) lowestCollectorNumber
                    in if matching \<noteq> [] then applyDefaults matching s3 else s3)
                 else s2\<lparr>selectedCollectorNumber := [], selectedCardVersion := None,
                         selectedLanguage := Some (ascii ''en''),
                         selectedFinish := Some (ascii ''nonfoil''),
                         availableLanguages := [], availableFinishes := []\<rparr>))"

definition handleCollectorNumberSelect :: "jsstring \<Rightarrow> state \<Rightarrow> state" where
  "handleCollectorNumberSelect collectorNumber s =
     (let s1 = s\<lparr>selectedCollectorNumber := collectorNumber\<rparr>
      in case selectedSet s of
           None \<Rightarrow> s1
         | Some info \<Rightarrow>
             if collectorNumber \<noteq> [] then
               (let matching = matchingCards s (code info) collectorNumber
                in if matching \<noteq> [] then applyDefaults matching s1 else s1)
             else s1)"

definition getCurrentCardVariant :: "state \<Rightarrow> card option" where
  "getCurrentCardVariant s =
     (case selectedSet s of
        None \<Rightarrow> selectedCardVersion s
      | Some info \<Rightarrow>
          if selectedCollectorNumber s = [] \<or> or_empty (selectedLanguage s) = [] \<or>
             or_empty (selectedFinish s) = []
          then selectedCardVersion s
          else (case List.find (\<lambda>card. or_empty (set_code card) = code info \<and>
                        clean (or_empty (collector_number card)) = selectedCollectorNumber s \<and>
                        lang card = selectedLanguage s \<and>
                        finishMatch card (selectedFinish s)) (searchResults s) of
                  Some c \<Rightarrow> Some c
                | None \<Rightarrow> selectedCardVersion s))"

definition handleLanguageOrFinishChange :: "state \<Rightarrow> state \<Rightarrow> state" where
  \<comment> \<open>reads the state of the last render (\<open>seen\<close>), writes to the state being built\<close>
  "handleLanguageOrFinishChange seen s =
     (if selectedSet seen \<noteq> None \<and> selectedCollectorNumber seen \<noteq> [] then
        (case getCurrentCardVariant seen of
           None \<Rightarrow> s
         | Some currentVariant \<Rightarrow> s\<lparr>selectedCardVersion := Some currentVariant\<rparr>)
      else s)"

definition onLanguageChange :: "jsstring \<Rightarrow> state \<Rightarrow> state" where
  \<comment> \<open>the language select: \<open>setSelectedLanguage(value); handleLanguageOrFinishChange()\<close>\<close>
  "onLanguageChange v s = handleLanguageOrFinishChange s (s\<lparr>selectedLanguage := Some v\<rparr>)"

definition onFinishChange :: "jsstring \<Rightarrow> state \<Rightarrow> state" where
  \<comment> \<open>the finish select: \<open>setSelectedFinish(value); handleLanguageOrFinishChange()\<close>\<close>
  "onFinishChange v s = handleLanguageOrFinishChange s (s\<lparr>selectedFinish := Some v\<rparr>)"

datatype operation =
    SetSelect jsstring
  | CollectorNumberSelect jsstring
  | LanguageChange jsstring
  | FinishChange jsstring
  | ClearForm
  | InputChange nat jsstring

fun apply_op ::
    "(jsstring \<Rightarrow> jsstring \<Rightarrow> jsnum) \<Rightarrow>
     ((jsstring \<Rightarrow> jsstring \<Rightarrow> jsnum) \<Rightarrow> jsstring list \<Rightarrow> jsstring list) \<Rightarrow>
     operation \<Rightarrow> state \<Rightarrow> state" where
  "apply_op lc srt (SetSelect c) s = handleSetSelect lc srt c s"
| "apply_op lc srt (CollectorNumberSelect n) s = handleCollectorNumberSelect n s"
| "apply_op lc srt (LanguageChange v) s = onLanguageChange v s"
| "apply_op lc srt (FinishChange v) s = onFinishChange v s"
| "apply_op lc srt ClearForm s = handleClear s"
| "apply_op lc srt (InputChange now v) s = handleAutocompleteChange now v s"

fun offered :: "operation \<Rightarrow> state \<Rightarrow> bool" where
  \<comment> \<open>what the rendered form lets the user do: the items of each select, and the
      conditions under which the select is rendered at all\<close>
  "offered (SetSelect c) s = (c \<in> code ` set (uniqueSets s))"
| "offered (CollectorNumberSelect n) s =
     (selectedSet s \<noteq> None \<and> n \<noteq> [] \<and> n \<in> set (availableCollectorNumbers s))"
| "offered (LanguageChange v) s =
     (selectedCollectorNumber s \<noteq> [] \<and> v \<in> set (availableLanguages s))"
| "offered (FinishChange v) s =
     (selectedCollectorNumber s \<noteq> [] \<and> v \<in> set (availableFinishes s))"
| "offered ClearForm s = True"
| "offered (InputChange now v) s = True"

fun apply_offered ::
    "(jsstring \<Rightarrow> jsstring \<Rightarrow> jsnum) \<Rightarrow>
     ((jsstring \<Rightarrow> jsstring \<Rightarrow> jsnum) \<Rightarrow> jsstring list \<Rightarrow> jsstring list) \<Rightarrow>
     operation list \<Rightarrow> state \<Rightarrow> state option" where
  \<comment> \<open>a sequence of operations, each offered in the state it is applied to\<close>
  "apply_offered lc srt [] s = Some s"
| "apply_offered lc srt (x # xs) s =
     (if offered x s then apply_offered lc srt xs (apply_op lc srt x s) else None)"

definition path_ok :: "state \<Rightarrow> bool" where
  \<comment> \<open>no collector number without a set; without a collector number the language and
      the finish are the defaults and no variant is resolved\<close>
  "path_ok s =
     ((selectedCollectorNumber s \<noteq> [] \<longrightarrow> selectedSet s \<noteq> None) \<and>
      (selectedCollectorNumber s = [] \<longrightarrow>
         selectedLanguage s = Some (ascii ''en'') \<and>
         selectedFinish s = Some (ascii ''nonfoil'') \<and>
         selectedCardVersion s = None))"

subsection \<open>The fallback chain as the specification words it\<close>

definition spec_resolve :: "card list \<Rightarrow> jsstring option \<Rightarrow> jsstring option \<Rightarrow> card option" where
  \<comment> \<open>both defaults, else the language only, else the finish only, else the first record\<close>
  "spec_resolve grp dl df =
     (case List.find (\<lambda>card. lang card = dl \<and> finishMatch card df) grp of
        Some c \<Rightarrow> Some c
      | None \<Rightarrow>
         (case List.find (\<lambda>card. lang card = dl) grp of
            Some c \<Rightarrow> Some c
          | None \<Rightarrow>
             (case List.find (\<lambda>card. finishMatch card df) grp of
                Some c \<Rightarrow> Some c
              | None \<Rightarrow> first grp)))"

subsection \<open>Two printings of one card\<close>

definition example_ja :: card where
  "example_ja = \<lparr>name = Some (ascii ''Opt''), set_code = Some (ascii ''m21''),
     set_name = Some (ascii ''Core Set 2021''), collector_number = Some (ascii ''59''),
     lang = Some (ascii ''ja''), finishes = Some [ascii ''nonfoil'']\<rparr>"

definition example_en :: card where
  "example_en = \<lparr>name = Some (ascii ''Opt''), set_code = Some (ascii ''m21''),
     set_name = Some (ascii ''Core Set 2021''), collector_number = Some (ascii ''59''),
     lang = Some (ascii ''en''), finishes = Some [ascii ''foil'']\<rparr>"

definition example_en_nonfoil :: card where
  "example_en_nonfoil = \<lparr>name = Some (ascii ''Opt''), set_code = Some (ascii ''m21''),
     set_name = Some (ascii ''Core Set 2021''), collector_number = Some (ascii ''59''),
     lang = Some (ascii ''en''), finishes = Some [ascii ''nonfoil'']\<rparr>"

definition example_en_etched :: card where
  "example_en_etched = \<lparr>name = Some (ascii ''Opt''), set_code = Some (ascii ''m21''),
     set_name = Some (ascii ''Core Set 2021''), collector_number = Some (ascii ''59''),
     lang = Some (ascii ''en''), finishes = Some [ascii ''nonfoil'', ascii ''etched'']\<rparr>"

definition example_group :: "card list" where
  \<comment> \<open>four printings under one set code and collector number; the third is the first
      that is both English and non-foil, the fourth is so as well\<close>
  "example_group = [example_ja, example_en, example_en_nonfoil, example_en_etched]"

definition example_set :: set_info where
  "example_set = \<lparr>code = ascii ''m21'', set_info_name = ascii ''Core Set 2021'',
     cards = [example_ja, example_en], collectorNumbers = [ascii ''59'']\<rparr>"

definition example_results :: state where
  \<comment> \<open>after a search that found the two printings, the set chosen\<close>
  "example_results = initial_state\<lparr>searchTerm := ascii ''Opt'',
     searchResults := [example_ja, example_en], uniqueSets := [example_set],
     selectedSet := Some example_set, availableCollectorNumbers := [ascii ''59'']\<rparr>"

definition example_four :: state where
  \<comment> \<open>after a search that found the four printings, the set chosen\<close>
  "example_four = example_results\<lparr>searchResults := example_group\<rparr>"

definition host_sort :: "(jsstring \<Rightarrow> jsstring \<Rightarrow> jsnum) \<Rightarrow> jsstring list \<Rightarrow> jsstring list" where
  \<comment> \<open>a stand-in for the host's sort in the examples, where it has at most one element to
      put in order\<close>
  "host_sort cmp xs = xs"

definition example_found :: state where
  \<comment> \<open>after the search, nothing chosen yet\<close>
  "example_found = initial_state\<lparr>searchTerm := ascii ''Opt'',
     searchResults := [example_ja, example_en], uniqueSets := [example_set]\<rparr>"

definition example_ops :: "operation list" where
  "example_ops = [SetSelect (ascii ''m21''), CollectorNumberSelect (ascii ''59''),
     LanguageChange (ascii ''ja''), FinishChange (ascii ''foil'')]"

definition example_unnumbered :: state where
  \<comment> \<open>a set whose cards carry no collector number, offered after a variant was chosen\<close>
  "example_unnumbered = example_results\<lparr>
     uniqueSets := [\<lparr>code = ascii ''plist'', set_info_name = ascii ''The List'',
                     cards = [], collectorNumbers = []\<rparr>],
     selectedCollectorNumber := ascii ''59'', selectedCardVersion := Some example_ja,
     selectedLanguage := Some (ascii ''ja'')\<rparr>"

section \<open>Evaluating the rounding on the values of the examples\<close>

lemma fl_pos:
  assumes "0 < q" and "ilog2 q = l" and "- 1022 \<le> l"
    and "round_half_even (q / pow2 (l - 52)) = n"
    and "real_of_int n * pow2 (l - 52) < pow2 1024"
  shows "fl q = Fin (real_of_int n * pow2 (l - 52))"
  using assms by (simp add: fl_def round_mag_def Let_def)

lemma fl_0_9: "fl (9 / 10) = Fin (8106479329266893 / 9007199254740992)"
  using fl_pos [of "9 / 10" "-1" 8106479329266893]
  by (simp add: ilog2_def compute_bitlen round_half_even_def pow2_def Let_def)

lemma fl_0_85: "fl (17 / 20) = Fin (7656119366529843 / 9007199254740992)"
  using fl_pos [of "17 / 20" "-1" 7656119366529843]
  by (simp add: ilog2_def compute_bitlen round_half_even_def pow2_def Let_def)

lemma fl_0_77: "fl (77 / 100) = Fin (1733885856537641 / 2251799813685248)"
  using fl_pos [of "77 / 100" "-1" 6935543426150564]
  by (simp add: ilog2_def compute_bitlen round_half_even_def pow2_def Let_def)

lemma fl_1_3: "fl (13 / 10) = Fin (5854679515581645 / 4503599627370496)"
  using fl_pos [of "13 / 10" "0" 5854679515581645]
  by (simp add: ilog2_def compute_bitlen round_half_even_def pow2_def Let_def)

lemma fl_69_3: "fl (693 / 10) = Fin (4876553971512115 / 70368744177664)"
  using fl_pos [of "693 / 10" "6" 4876553971512115]
  by (simp add: ilog2_def compute_bitlen round_half_even_def pow2_def Let_def)

lemma fl_90_09: "fl (9009 / 100) = Fin (3169760081482875 / 35184372088832)"
  using fl_pos [of "9009 / 100" "6" 6339520162965750]
  by (simp add: ilog2_def compute_bitlen round_half_even_def pow2_def Let_def)

lemma mul_100_1: "js_mul (Fin 100) (Fin 1) = Fin 100"
  using fl_pos [of "100 * 1" "6" 7036874417766400]
  by (simp add: ilog2_def compute_bitlen round_half_even_def pow2_def Let_def)

lemma mul_100_0_85: "js_mul (Fin 100) (Fin (7656119366529843 / 9007199254740992)) = Fin 85"
  using fl_pos [of "100 * (7656119366529843 / 9007199254740992)" "6" 5981343255101440]
  by (simp add: ilog2_def compute_bitlen round_half_even_def pow2_def Let_def)

lemma mul_85_1_3: "js_mul (Fin 85) (Fin (5854679515581645 / 4503599627370496)) = Fin (221 / 2)"
  using fl_pos [of "85 * (5854679515581645 / 4503599627370496)" "6" 7775746231631872]
  by (simp add: ilog2_def compute_bitlen round_half_even_def pow2_def Let_def)

lemma mul_100_0_9: "js_mul (Fin 100) (Fin (8106479329266893 / 9007199254740992)) = Fin 90"
  using fl_pos [of "100 * (8106479329266893 / 9007199254740992)" "6" 6333186975989760]
  by (simp add: ilog2_def compute_bitlen round_half_even_def pow2_def Let_def)

lemma mul_90_0_77: "js_mul (Fin 90) (Fin (1733885856537641 / 2251799813685248)) = Fin (4876553971512115 / 70368744177664)"
  using fl_pos [of "90 * (1733885856537641 / 2251799813685248)" "6" 4876553971512115]
  by (simp add: ilog2_def compute_bitlen round_half_even_def pow2_def Let_def)

lemma mul_69_3_1_3: "js_mul (Fin (4876553971512115 / 70368744177664)) (Fin (5854679515581645 / 4503599627370496)) = Fin (3169760081482875 / 35184372088832)"
  using fl_pos [of "(4876553971512115 / 70368744177664) * (5854679515581645 / 4503599627370496)" "6" 6339520162965750]
  by (simp add: ilog2_def compute_bitlen round_half_even_def pow2_def Let_def)

lemma mul_100_0_5: "js_mul (Fin 100) (Fin (1 / 2)) = Fin 50"
  using fl_pos [of "100 * (1 / 2)" "5" 7036874417766400]
  by (simp add: ilog2_def compute_bitlen round_half_even_def pow2_def Let_def)

lemma mul_50_1: "js_mul (Fin 50) (Fin 1) = Fin 50"
  using fl_pos [of "50 * 1" "5" 7036874417766400]
  by (simp add: ilog2_def compute_bitlen round_half_even_def pow2_def Let_def)

lemma mul_50_0_85: "js_mul (Fin 50) (Fin (7656119366529843 / 9007199254740992)) = Fin (85 / 2)"
  using fl_pos [of "50 * (7656119366529843 / 9007199254740992)" "5" 5981343255101440]
  by (simp add: ilog2_def compute_bitlen round_half_even_def pow2_def Let_def)

lemma mul_50_0_5: "js_mul (Fin 50) (Fin (1 / 2)) = Fin 25"
  using fl_pos [of "50 * (1 / 2)" "4" 7036874417766400]
  by (simp add: ilog2_def compute_bitlen round_half_even_def pow2_def Let_def)

lemma mul_42_5_1_3: "js_mul (Fin (85 / 2)) (Fin (5854679515581645 / 4503599627370496)) = Fin (221 / 4)"
  using fl_pos [of "(85 / 2) * (5854679515581645 / 4503599627370496)" "5" 7775746231631872]
  by (simp add: ilog2_def compute_bitlen round_half_even_def pow2_def Let_def)

lemmas fl_literals = fl_0_9 fl_0_85 fl_0_77 fl_1_3 fl_69_3 fl_90_09

lemmas example_products = mul_100_1 mul_100_0_85 mul_85_1_3 mul_100_0_9 mul_90_0_77
  mul_69_3_1_3 mul_100_0_5 mul_50_1 mul_50_0_85 mul_50_0_5 mul_42_5_1_3

section \<open>Properties of the pricing grid\<close>

lemma rowData_truthy:
  "truthy b \<Longrightarrow> rowData s b c = Some (pricing_row_for s b c)"
  by (cases c) (simp_all add: rowData_def calculatePricingGrid_def conditions_def
      pricing_row_for_def Let_def)


text \<open>
  Claim C1. Every row of a grid that is produced has
  \<open>price = basePrice * conditionMultipliers[condition]\<close>,
  \<open>buyCash = price * buyCashMultipliers[condition]\<close> and
  \<open>buyCredit = buyCash * creditMultiplier\<close>, the rows being those of NM, EX, VG and G in
  this order. With base price 100, condition multipliers NM 1.0 and EX 0.9, buy-cash
  multipliers NM 0.85 and EX 0.77 and credit multiplier 1.3, the NM row is
  \<open>{price: 100, buyCash: 85, buyCredit: 110.5}\<close> and the EX row is
  \<open>{price: 90, buyCash: 69.3, buyCredit: 90.09}\<close>, each number being the binary64 value
  that the decimal literal denotes.
\<close>

theorem calculatePricingGrid_rows:
  "(calculatePricingGrid s b = Some grid \<longrightarrow>
      map condition grid = [NM, EX', VG, G] \<and>
      (\<forall>row \<in> set grid.
         price row = js_mul (to_number b)
                       (to_number (entry (conditionMultipliers s) (condition row))) \<and>
         buyCash row = js_mul (price row)
                         (to_number (entry (buyCashMultipliers s) (condition row))) \<and>
         buyCredit row = js_mul (buyCash row) (creditMultiplier s))) \<and>
   (conditionMultipliers s NM = Some (Fin 1) \<and> conditionMultipliers s EX' = Some (fl (9 / 10)) \<and>
    buyCashMultipliers s NM = Some (fl (85 / 100)) \<and>
    buyCashMultipliers s EX' = Some (fl (77 / 100)) \<and>
    creditMultiplier s = fl (13 / 10) \<longrightarrow>
      rowData s (JNum (Fin 100)) NM =
        Some \<lparr>condition = NM, price = Fin 100, buyCash = Fin 85, buyCredit = Fin (221 / 2)\<rparr> \<and>
      rowData s (JNum (Fin 100)) EX' =
        Some \<lparr>condition = EX', price = Fin 90, buyCash = fl (693 / 10),
              buyCredit = fl (9009 / 100)\<rparr>)"
proof (intro conjI impI)
  assume "calculatePricingGrid s b = Some grid"
  then have g: "grid = map (pricing_row_for s b) conditions"
    by (simp add: calculatePricingGrid_def split: if_splits)
  show "map condition grid = [NM, EX', VG, G]"
    by (simp add: g conditions_def pricing_row_for_def Let_def)
  show "\<forall>row \<in> set grid.
         price row = js_mul (to_number b)
                       (to_number (entry (conditionMultipliers s) (condition row))) \<and>
         buyCash row = js_mul (price row)
                         (to_number (entry (buyCashMultipliers s) (condition row))) \<and>
         buyCredit row = js_mul (buyCash row) (creditMultiplier s)"
    by (simp add: g conditions_def pricing_row_for_def Let_def)
next
  assume a: "conditionMultipliers s NM = Some (Fin 1) \<and>
    conditionMultipliers s EX' = Some (fl (9 / 10)) \<and>
    buyCashMultipliers s NM = Some (fl (85 / 100)) \<and>
    buyCashMultipliers s EX' = Some (fl (77 / 100)) \<and>
    creditMultiplier s = fl (13 / 10)"
  show "rowData s (JNum (Fin 100)) NM =
        Some \<lparr>condition = NM, price = Fin 100, buyCash = Fin 85, buyCredit = Fin (221 / 2)\<rparr>"
    using a by (simp add: rowData_truthy pricing_row_for_def entry_def Let_def fl_literals
        example_products del: js_mul.simps)
  show "rowData s (JNum (Fin 100)) EX' =
        Some \<lparr>condition = EX', price = Fin 90, buyCash = fl (693 / 10),
              buyCredit = fl (9009 / 100)\<rparr>"
    using a by (simp add: rowData_truthy pricing_row_for_def entry_def Let_def fl_literals
        example_products del: js_mul.simps)
qed

theorem calculatePricingGrid_rows_witness:
  "calculatePricingGrid pricer_defaults (JNum (Fin 100)) =
     Some (map (pricing_row_for pricer_defaults (JNum (Fin 100))) [NM, EX', VG, G]) \<and>
   map condition (map (pricing_row_for pricer_defaults (JNum (Fin 100))) [NM, EX', VG, G]) =
     [NM, EX', VG, G] \<and>
   rowData pricer_defaults (JNum (Fin 100)) NM =
     Some \<lparr>condition = NM, price = Fin 100, buyCash = Fin 85, buyCredit = Fin (221 / 2)\<rparr> \<and>
   rowData pricer_defaults (JNum (Fin 100)) EX' =
     Some \<lparr>condition = EX', price = Fin 90, buyCash = fl (693 / 10),
           buyCredit = fl (9009 / 100)\<rparr>"
proof -
  have g: "calculatePricingGrid pricer_defaults (JNum (Fin 100)) =
     Some (map (pricing_row_for pricer_defaults (JNum (Fin 100))) [NM, EX', VG, G])"
    by (simp add: calculatePricingGrid_def conditions_def)
  have d: "conditionMultipliers pricer_defaults NM = Some (Fin 1) \<and>
    conditionMultipliers pricer_defaults EX' = Some (fl (9 / 10)) \<and>
    buyCashMultipliers pricer_defaults NM = Some (fl (85 / 100)) \<and>
    buyCashMultipliers pricer_defaults EX' = Some (fl (77 / 100)) \<and>
    creditMultiplier pricer_defaults = fl (13 / 10)"
    by (simp add: pricer_defaults_def)
  from calculatePricingGrid_rows
    [of pricer_defaults "JNum (Fin 100)"
        "map (pricing_row_for pricer_defaults (JNum (Fin 100))) [NM, EX', VG, G]"]
  show ?thesis using g d by blast
qed




text \<open>
  Claim C10. A base price that is \<open>null\<close>, \<open>undefined\<close> or zero yields no grid
  (\<open>null\<close>); a grid, when there is one, has four rows and comes from a number other
  than zero; and every finite number other than zero yields a grid of four rows.
\<close>

theorem calculatePricingGrid_null:
  "(b = JNull \<or> b = JUndefined \<or> b = JNum (Fin 0) \<longrightarrow> calculatePricingGrid s b = None) \<and>
   (calculatePricingGrid s b = Some grid \<longrightarrow>
      length grid = 4 \<and> (\<exists>x. b = JNum x \<and> x \<noteq> Fin 0)) \<and>
   (q \<noteq> 0 \<longrightarrow> (\<exists>rows. calculatePricingGrid s (JNum (Fin q)) = Some rows \<and> length rows = 4))"
proof (intro conjI impI)
  assume "b = JNull \<or> b = JUndefined \<or> b = JNum (Fin 0)"
  then show "calculatePricingGrid s b = None"
    by (auto simp: calculatePricingGrid_def)
next
  assume g: "calculatePricingGrid s b = Some grid"
  then have t: "truthy b" and "grid = map (pricing_row_for s b) conditions"
    by (auto simp: calculatePricingGrid_def split: if_splits)
  then show "length grid = 4"
    by (simp add: conditions_def)
  from t show "\<exists>x. b = JNum x \<and> x \<noteq> Fin 0"
    by (cases b) auto
next
  assume "q \<noteq> 0"
  then show "\<exists>rows. calculatePricingGrid s (JNum (Fin q)) = Some rows \<and> length rows = 4"
    by (simp add: calculatePricingGrid_def conditions_def)
qed

theorem calculatePricingGrid_null_witness:
  "calculatePricingGrid pricer_defaults (JNum (Fin 0)) = None \<and>
   calculatePricingGrid pricer_defaults JNull = None \<and>
   calculatePricingGrid pricer_defaults JUndefined = None \<and>
   (\<exists>rows. calculatePricingGrid pricer_defaults (JNum (Fin 100)) = Some rows \<and> length rows = 4)"
  using calculatePricingGrid_null [where b = "JNum (Fin 0)" and s = pricer_defaults and q = 100]
    calculatePricingGrid_null [where b = JNull and s = pricer_defaults and q = 100]
    calculatePricingGrid_null [where b = JUndefined and s = pricer_defaults and q = 100]
  by simp

section \<open>The suggestion cache\<close>

lemma length_update_new:
  "k \<notin> fst ` set al \<Longrightarrow> AList.update k v al = al @ [(k, v)]"
  by (induction al) auto

lemma length_update_le: "length (AList.update k v al) \<le> Suc (length al)"
  by (induction al) auto

lemma length_delete_less:
  "k \<in> fst ` set al \<Longrightarrow> length (AList.delete k al) < length al"
proof (induction al)
  case Nil
  then show ?case by simp
next
  case (Cons p al)
  show ?case
  proof (cases "fst p = k")
    case True
    then show ?thesis
      using length_delete_le [of k al] by (simp add: less_Suc_eq_le)
  next
    case False
    with Cons.prems have "k \<in> fst ` set al" by auto
    with Cons.IH False show ?thesis by simp
  qed
qed

lemma evict_oldest_distinct:
  "distinct (map fst c) \<Longrightarrow> evict_oldest c = tl c"
  by (cases c) (auto simp: evict_oldest_def AList.delete_eq filter_id_conv rev_image_eqI)

lemma cache_ok_start: "cache_ok s \<Longrightarrow> cache_ok (fetchAutocomplete_start q s)"
proof -
  assume ok: "cache_ok s"
  show ?thesis
  proof (cases "map_of (cache s) q")
    case None
    then show ?thesis using ok by (simp add: fetchAutocomplete_start_def cache_ok_def)
  next
    case (Some v)
    then have "q \<in> fst ` set (cache s)" by (force dest: map_of_SomeD)
    then have "length (AList.delete q (cache s)) < length (cache s)"
      by (rule length_delete_less)
    moreover have "length (AList.update q v (AList.delete q (cache s))) \<le> Suc (length (AList.delete q (cache s)))"
      by (rule length_update_le)
    ultimately show ?thesis using ok Some
      by (simp add: fetchAutocomplete_start_def cache_ok_def distinct_update distinct_delete)
  qed
qed

lemma cache_ok_resolve: "cache_ok s \<Longrightarrow> cache_ok (fetchAutocomplete_resolve q r s)"
proof (cases r)
  case (Ok results)
  assume ok: "cache_ok s"
  define c where "c = (if maxCacheSize \<le> length (cache s) then evict_oldest (cache s) else cache s)"
  have d: "distinct (map fst c)" using ok
    by (auto simp: c_def cache_ok_def evict_oldest_distinct distinct_tl map_tl)
  have "length c < maxCacheSize" using ok
    by (cases "cache s") (auto simp: c_def cache_ok_def evict_oldest_distinct maxCacheSize_def)
  then have "length (AList.update q results c) \<le> maxCacheSize"
    using length_update_le[of q results c] by simp
  then show ?thesis using d Ok
    by (simp add: fetchAutocomplete_resolve_def cache_ok_def Let_def c_def[symmetric] distinct_update)
next
  case Failed
  assume "cache_ok s"
  then show ?thesis using Failed by (simp add: fetchAutocomplete_resolve_def cache_ok_def)
qed

lemma cache_clearTimeout [simp]: "cache (clearTimeout i s) = cache s"
  by (simp add: clearTimeout_def)

lemma cache_debounced [simp]: "cache (debouncedAutocomplete now q s) = cache s"
  by (cases "debounceTimeout s") (simp_all add: debouncedAutocomplete_def Let_def)

lemma cache_reset [simp]: "cache (reset_selection s) = cache s"
  by (simp add: reset_selection_def)

lemma cache_change [simp]: "cache (handleAutocompleteChange now v s) = cache s"
  by (simp add: handleAutocompleteChange_def Let_def)

lemma cache_clear [simp]: "cache (handleClear s) = cache s"
  by (cases "debounceTimeout s") (simp_all add: handleClear_def reset_selection_def Let_def)

lemma cache_ok_cong: "cache s' = cache s \<Longrightarrow> cache_ok s' = cache_ok s"
  by (simp add: cache_ok_def)

lemma cache_ok_timerFires: "cache_ok s \<Longrightarrow> cache_ok (timerFires now i s)"
proof (cases "List.find (\<lambda>(j, due, q). j = i \<and> due \<le> now) (timers s)")
  case None
  assume "cache_ok s"
  with None show ?thesis by (simp add: timerFires_def)
next
  case (Some t)
  assume ok: "cache_ok s"
  obtain j due q where t: "t = (j, due, q)" by (cases t)
  have "cache_ok (s\<lparr>timers := filter (\<lambda>(j, due, q). j \<noteq> i) (timers s)\<rparr>)"
    using ok by (simp add: cache_ok_def)
  then have "cache_ok (fetchAutocomplete_start q
      (s\<lparr>timers := filter (\<lambda>(j, due, q). j \<noteq> i) (timers s)\<rparr>))"
    by (rule cache_ok_start)
  with Some t show ?thesis by (simp add: timerFires_def)
qed

lemma cache_ok_step: "cache_ok s \<Longrightarrow> cache_ok (step e s)"
proof (cases e)
  case (Input now v)
  assume "cache_ok s"
  with Input show ?thesis by (simp add: cache_ok_cong [of "handleAutocompleteChange now v s" s])
next
  case (Timeout now i)
  assume "cache_ok s"
  with Timeout show ?thesis by (simp add: cache_ok_timerFires)
next
  case (Response q r)
  assume "cache_ok s"
  with Response show ?thesis by (simp add: cache_ok_resolve)
next
  case Clear
  assume "cache_ok s"
  with Clear show ?thesis by (simp add: cache_ok_cong [of "handleClear s" s])
qed

lemma cache_ok_run: "cache_ok s \<Longrightarrow> cache_ok (run evs s)"
  unfolding run_def by (induction evs arbitrary: s) (simp_all add: cache_ok_step)

lemma cache_ok_initial: "cache_ok initial_state"
  by (simp add: cache_ok_def initial_state_def)

lemma length_delete_distinct:
  "distinct (map fst al) \<Longrightarrow> k \<in> fst ` set al \<Longrightarrow> Suc (length (AList.delete k al)) = length al"
proof (induction al)
  case Nil
  then show ?case by simp
next
  case (Cons p al)
  show ?case
  proof (cases "fst p = k")
    case True
    with Cons.prems have "k \<notin> fst ` set al" by auto
    with True show ?thesis by simp
  next
    case False
    with Cons.prems have "k \<in> fst ` set al" and "distinct (map fst al)" by auto
    with Cons.IH False show ?thesis by simp
  qed
qed

lemma resolve_full:
  assumes ok: "cache_ok s" and full: "length (cache s) = 50"
    and c: "cache s = (ko, vo) # rest" and new: "q \<notin> fst ` set (cache s)"
  shows "cache (fetchAutocomplete_resolve q (Ok r) s) = rest @ [(q, r)]"
proof -
  have "evict_oldest (cache s) = rest"
    using ok c by (simp add: evict_oldest_distinct cache_ok_def)
  moreover have "q \<notin> fst ` set rest" using new c by auto
  ultimately show ?thesis using full
    by (simp add: fetchAutocomplete_resolve_def Let_def maxCacheSize_def length_update_new)
qed

lemma start_hit:
  assumes "3 \<le> length q" and "map_of (cache s) q = Some v"
  shows "fetchAutocomplete_start q s =
    s\<lparr>cache := AList.delete q (cache s) @ [(q, v)], suggestions := v\<rparr>"
  using assms by (simp add: fetchAutocomplete_start_def length_update_new delete_notin_dom)

lemma resolve_cache:
  "cache (fetchAutocomplete_resolve q (Ok r) s) = AList.update q r (cache_after_eviction s)"
  by (simp add: fetchAutocomplete_resolve_def cache_after_eviction_def Let_def)

text \<open>
  What holds of the cache. Whatever inputs, timer expiries, responses and clears occur,
  it holds at most 50 entries. When the answer to a query that is not cached arrives at a
  full cache, the entry at the front is removed, the new entry goes to the back, and every
  other entry is found with the value it had. On a hit the entry moves to the back, every
  lookup gives what it gave before, and the cached value becomes the suggestion list
  without a request being sent.
\<close>

lemma cache_bound_eviction_hit:
  "length (cache (run evs initial_state)) \<le> 50 \<and>
   (cache_ok s \<longrightarrow> cache_ok (run evs s)) \<and>
   (cache_ok s \<and> length (cache s) = 50 \<and> cache s = (ko, vo) # rest \<and>
    q \<notin> fst ` set (cache s) \<and> q \<in> set (inflight s) \<longrightarrow>
      cache (step (Response q (Ok r)) s) = rest @ [(q, r)] \<and>
      length (cache (step (Response q (Ok r)) s)) = 50 \<and>
      map_of (cache (step (Response q (Ok r)) s)) ko = None \<and>
      map_of (cache (step (Response q (Ok r)) s)) q = Some r \<and>
      (\<forall>k. k \<noteq> ko \<and> k \<noteq> q \<longrightarrow>
         map_of (cache (step (Response q (Ok r)) s)) k = map_of (cache s) k)) \<and>
   (cache_ok s \<and> 3 \<le> length q \<and> map_of (cache s) q = Some v \<longrightarrow>
      cache (fetchAutocomplete_start q s) = AList.delete q (cache s) @ [(q, v)] \<and>
      map_of (cache (fetchAutocomplete_start q s)) = map_of (cache s) \<and>
      length (cache (fetchAutocomplete_start q s)) = length (cache s) \<and>
      suggestions (fetchAutocomplete_start q s) = v \<and>
      inflight (fetchAutocomplete_start q s) = inflight s)"
proof (intro conjI impI)
  show "length (cache (run evs initial_state)) \<le> 50"
    using cache_ok_run [OF cache_ok_initial, of evs] by (simp add: cache_ok_def maxCacheSize_def)
next
  assume "cache_ok s"
  then show "cache_ok (run evs s)" by (rule cache_ok_run)
next
  assume a: "cache_ok s \<and> length (cache s) = 50 \<and> cache s = (ko, vo) # rest \<and>
    q \<notin> fst ` set (cache s) \<and> q \<in> set (inflight s)"
  then have ok: "cache_ok s" and full: "length (cache s) = 50"
    and c: "cache s = (ko, vo) # rest" and new: "q \<notin> fst ` set (cache s)"
    and fl: "q \<in> set (inflight s)"
    by blast+
  have eq: "cache (step (Response q (Ok r)) s) = rest @ [(q, r)]"
    using resolve_full [OF ok full c new] fl by simp
  have ko: "ko \<notin> fst ` set rest"
    using ok c by (simp add: cache_ok_def)
  have qk: "q \<noteq> ko"
    using new c by auto
  have len: "length rest = 49"
    using full c by simp
  show "cache (step (Response q (Ok r)) s) = rest @ [(q, r)]" by (rule eq)
  show "length (cache (step (Response q (Ok r)) s)) = 50"
    unfolding eq by (simp add: len)
  show "map_of (cache (step (Response q (Ok r)) s)) ko = None"
  proof -
    have "map_of rest ko = None" using ko by (simp add: map_of_eq_None_iff)
    then show ?thesis unfolding eq using qk by (simp add: map_add_def)
  qed
  show "map_of (cache (step (Response q (Ok r)) s)) q = Some r"
  proof -
    have "q \<notin> fst ` set rest" using new c by auto
    then have "map_of rest q = None" by (simp add: map_of_eq_None_iff)
    then show ?thesis unfolding eq by (simp add: map_add_def)
  qed
  show "\<forall>k. k \<noteq> ko \<and> k \<noteq> q \<longrightarrow>
         map_of (cache (step (Response q (Ok r)) s)) k = map_of (cache s) k"
    unfolding eq c by (auto simp: map_add_def split: option.splits)
next
  assume a: "cache_ok s \<and> 3 \<le> length q \<and> map_of (cache s) q = Some v"
  then have eq: "fetchAutocomplete_start q s =
    s\<lparr>cache := AList.delete q (cache s) @ [(q, v)], suggestions := v\<rparr>"
    by (simp add: start_hit)
  from a have mem: "q \<in> fst ` set (cache s)" by (force dest: map_of_SomeD)
  show "cache (fetchAutocomplete_start q s) = AList.delete q (cache s) @ [(q, v)]"
    by (simp add: eq)
  show "map_of (cache (fetchAutocomplete_start q s)) = map_of (cache s)"
  proof
    fix k
    show "map_of (cache (fetchAutocomplete_start q s)) k = map_of (cache s) k"
      using a by (cases "k = q") (auto simp: eq map_add_def delete_conv' split: option.splits)
  qed
  show "length (cache (fetchAutocomplete_start q s)) = length (cache s)"
    using a mem by (simp add: eq length_delete_distinct cache_ok_def)
  show "suggestions (fetchAutocomplete_start q s) = v" by (simp add: eq)
  show "inflight (fetchAutocomplete_start q s) = inflight s" by (simp add: eq)
qed

lemma run_append: "run (xs @ ys) s = run ys (run xs s)"
  by (simp add: run_def)

lemma run_Cons: "run (e # evs) s = run evs (step e s)"
  by (simp add: run_def)

lemma run_Nil: "run [] s = s"
  by (simp add: run_def)


section \<open>The debounce scheduler\<close>

lemma timers_ok_no_ref: "timers_ok s \<Longrightarrow> debounceTimeout s = None \<Longrightarrow> timers s = []"
  by (cases "timers s") (auto simp: timers_ok_def)

lemma timers_ok_clear_ref:
  "timers_ok s \<Longrightarrow> debounceTimeout s = Some i \<Longrightarrow>
     filter (\<lambda>(j, due, q). j \<noteq> i) (timers s) = []"
  by (auto simp: timers_ok_def filter_empty_conv)

lemma debounced_fields:
  assumes "timers_ok s"
  shows "timers (debouncedAutocomplete now q s) = [(nextTimer s, now + 750, q)]"
    and "debounceTimeout (debouncedAutocomplete now q s) = Some (nextTimer s)"
    and "nextTimer (debouncedAutocomplete now q s) = Suc (nextTimer s)"
    and "inflight (debouncedAutocomplete now q s) = inflight s"
    and "suggestions (debouncedAutocomplete now q s) = suggestions s"
  using assms timers_ok_no_ref [of s] timers_ok_clear_ref [of s]
  by (cases "debounceTimeout s"; simp add: debouncedAutocomplete_def clearTimeout_def Let_def)+

lemma pending_only_debounced:
  "timers_ok s \<Longrightarrow> pending_only now q (debouncedAutocomplete now q s)"
  by (simp add: pending_only_def debounced_fields timers_ok_def)

lemma timerFires_early:
  "pending_only t q s \<Longrightarrow> now < t + 750 \<Longrightarrow> timerFires now j s = s"
  by (auto simp: pending_only_def timerFires_def)

lemma timerFires_due:
  "pending_only t q s \<Longrightarrow> t + 750 \<le> now \<Longrightarrow> debounceTimeout s = Some i \<Longrightarrow>
     timerFires now i s = fetchAutocomplete_start q (s\<lparr>timers := []\<rparr>)"
  by (auto simp: pending_only_def timerFires_def)

lemma timers_ok_same:
  "timers_ok s \<Longrightarrow> timers s' = timers s \<Longrightarrow> debounceTimeout s' = debounceTimeout s \<Longrightarrow>
     nextTimer s' = nextTimer s \<Longrightarrow> timers_ok s'"
  by (simp add: timers_ok_def)

lemma timers_ok_filter:
  "timers_ok s \<Longrightarrow> timers_ok (s\<lparr>timers := filter P (timers s)\<rparr>)"
  by (auto simp: timers_ok_def distinct_map_filter)

lemma timers_ok_debounced: "timers_ok s \<Longrightarrow> timers_ok (debouncedAutocomplete now q s)"
  using pending_only_debounced [of s now q] by (simp add: pending_only_def)

lemma timers_start [simp]:
  "timers (fetchAutocomplete_start q s) = timers s"
  "debounceTimeout (fetchAutocomplete_start q s) = debounceTimeout s"
  "nextTimer (fetchAutocomplete_start q s) = nextTimer s"
  by (cases "map_of (cache s) q"; simp add: fetchAutocomplete_start_def)+

lemma timers_resolve [simp]:
  "timers (fetchAutocomplete_resolve q r s) = timers s"
  "debounceTimeout (fetchAutocomplete_resolve q r s) = debounceTimeout s"
  "nextTimer (fetchAutocomplete_resolve q r s) = nextTimer s"
  by (cases r; simp add: fetchAutocomplete_resolve_def Let_def)+

lemma timers_reset [simp]:
  "timers (reset_selection s) = timers s"
  "debounceTimeout (reset_selection s) = debounceTimeout s"
  "nextTimer (reset_selection s) = nextTimer s"
  by (simp_all add: reset_selection_def)

lemma timers_ok_change: "timers_ok s \<Longrightarrow> timers_ok (handleAutocompleteChange now v s)"
proof -
  assume ok: "timers_ok s"
  define s2 where "s2 = (if v \<noteq> first_name (searchResults s) \<and> searchResults s \<noteq> []
             then reset_selection (s\<lparr>searchTerm := v\<rparr>) else s\<lparr>searchTerm := v\<rparr>)"
  have ok2: "timers_ok s2"
    by (rule timers_ok_same [OF ok]) (simp_all add: s2_def)
  have eq: "handleAutocompleteChange now v s =
      (if v \<noteq> [] then debouncedAutocomplete now v s2 else s2\<lparr>suggestions := []\<rparr>)"
    by (simp add: handleAutocompleteChange_def Let_def s2_def)
  show ?thesis
  proof (cases "v = []")
    case True
    have "timers_ok (s2\<lparr>suggestions := []\<rparr>)"
      by (rule timers_ok_same [OF ok2]) simp_all
    with True show ?thesis unfolding eq by simp
  next
    case False
    with timers_ok_debounced [OF ok2, of now v] show ?thesis
      unfolding eq by simp
  qed
qed

lemma timers_ok_timerFires: "timers_ok s \<Longrightarrow> timers_ok (timerFires now i s)"
proof (cases "List.find (\<lambda>(j, due, q). j = i \<and> due \<le> now) (timers s)")
  case None
  assume "timers_ok s"
  with None show ?thesis by (simp add: timerFires_def)
next
  case (Some t)
  assume ok: "timers_ok s"
  obtain j due q where t: "t = (j, due, q)" by (cases t)
  define s1 where "s1 = s\<lparr>timers := filter (\<lambda>(j, due, q). j \<noteq> i) (timers s)\<rparr>"
  have ok1: "timers_ok s1"
    unfolding s1_def using ok by (rule timers_ok_filter)
  have "timers_ok (fetchAutocomplete_start q s1)"
    by (rule timers_ok_same [OF ok1]) simp_all
  with Some t show ?thesis by (simp add: timerFires_def s1_def)
qed

lemma timers_ok_clear: "timers_ok s \<Longrightarrow> timers_ok (handleClear s)"
proof -
  assume ok: "timers_ok s"
  define s1 where "s1 = (reset_selection s)\<lparr>searchTerm := [], suggestions := []\<rparr>"
  have ok1: "timers_ok s1"
    by (rule timers_ok_same [OF ok]) (simp_all add: s1_def)
  have ref: "debounceTimeout s1 = debounceTimeout s" by (simp add: s1_def)
  have eq: "handleClear s = (case debounceTimeout s1 of None \<Rightarrow> s1 | Some i \<Rightarrow> clearTimeout i s1)"
    unfolding handleClear_def Let_def s1_def by (rule refl)
  show ?thesis
  proof (cases "debounceTimeout s1")
    case None
    with ok1 show ?thesis unfolding eq by simp
  next
    case (Some i)
    with timers_ok_filter [OF ok1, of "\<lambda>(j, due, q). j \<noteq> i"] show ?thesis
      unfolding eq by (simp add: clearTimeout_def)
  qed
qed

lemma timers_ok_step: "timers_ok s \<Longrightarrow> timers_ok (step e s)"
proof (cases e)
  case (Input now v)
  assume "timers_ok s"
  with Input show ?thesis by (simp add: timers_ok_change)
next
  case (Timeout now i)
  assume "timers_ok s"
  with Timeout show ?thesis by (simp add: timers_ok_timerFires)
next
  case (Response q r)
  assume ok: "timers_ok s"
  have "timers_ok (fetchAutocomplete_resolve q r s)"
    by (rule timers_ok_same [OF ok]) simp_all
  with ok Response show ?thesis by simp
next
  case Clear
  assume "timers_ok s"
  with Clear show ?thesis by (simp add: timers_ok_clear)
qed

lemma timers_ok_run: "timers_ok s \<Longrightarrow> timers_ok (run evs s)"
  unfolding run_def by (induction evs arbitrary: s) (simp_all add: timers_ok_step)

lemma timers_ok_initial: "timers_ok initial_state"
  by (simp add: timers_ok_def initial_state_def)

lemma ascii_simps [simp]: "ascii [] = []" "ascii (c # cs) = of_char c # ascii cs"
  by (simp_all add: ascii_def)

lemma start_short: "length v < 3 \<Longrightarrow> fetchAutocomplete_start v s = s\<lparr>suggestions := []\<rparr>"
  by (simp add: fetchAutocomplete_start_def)

lemma change_nonempty:
  "v \<noteq> [] \<Longrightarrow> handleAutocompleteChange now v s =
     debouncedAutocomplete now v
       (if v \<noteq> first_name (searchResults s) \<and> searchResults s \<noteq> []
        then reset_selection (s\<lparr>searchTerm := v\<rparr>) else s\<lparr>searchTerm := v\<rparr>)"
  by (simp add: handleAutocompleteChange_def Let_def)

lemma change_empty:
  "handleAutocompleteChange now [] s =
     (if [] \<noteq> first_name (searchResults s) \<and> searchResults s \<noteq> []
      then reset_selection (s\<lparr>searchTerm := []\<rparr>) else s\<lparr>searchTerm := []\<rparr>)\<lparr>suggestions := []\<rparr>"
  by (simp add: handleAutocompleteChange_def Let_def)

lemma inflight_debounced [simp]: "inflight (debouncedAutocomplete now q s) = inflight s"
  by (cases "debounceTimeout s") (simp_all add: debouncedAutocomplete_def clearTimeout_def Let_def)

lemma inflight_change [simp]: "inflight (handleAutocompleteChange now v s) = inflight s"
  by (simp add: handleAutocompleteChange_def Let_def reset_selection_def)

lemma change_short_nonempty:
  assumes ok: "timers_ok s" and v: "v \<noteq> []"
  shows "timers (handleAutocompleteChange now v s) = [(nextTimer s, now + 750, v)]"
    and "suggestions (handleAutocompleteChange now v s) = suggestions s"
    and "debounceTimeout (handleAutocompleteChange now v s) = Some (nextTimer s)"
    and "pending_only now v (handleAutocompleteChange now v s)"
proof -
  define s2 where "s2 = (if v \<noteq> first_name (searchResults s) \<and> searchResults s \<noteq> []
        then reset_selection (s\<lparr>searchTerm := v\<rparr>) else s\<lparr>searchTerm := v\<rparr>)"
  have ok2: "timers_ok s2"
    by (rule timers_ok_same [OF ok]) (simp_all add: s2_def)
  have eq: "handleAutocompleteChange now v s = debouncedAutocomplete now v s2"
    using v by (simp add: change_nonempty s2_def)
  have n: "nextTimer s2 = nextTimer s" and su: "suggestions s2 = suggestions s"
    by (simp_all add: s2_def reset_selection_def)
  show "timers (handleAutocompleteChange now v s) = [(nextTimer s, now + 750, v)]"
    unfolding eq using debounced_fields(1) [OF ok2, of now v] by (simp add: n)
  show "suggestions (handleAutocompleteChange now v s) = suggestions s"
    unfolding eq using debounced_fields(5) [OF ok2, of now v] by (simp add: su)
  show "debounceTimeout (handleAutocompleteChange now v s) = Some (nextTimer s)"
    unfolding eq using debounced_fields(2) [OF ok2, of now v] by (simp add: n)
  show "pending_only now v (handleAutocompleteChange now v s)"
    unfolding eq using ok2 by (rule pending_only_debounced)
qed

text \<open>
  Claim C9, amended: for every query shorter than three characters the cache is neither
  read nor changed and no request is sent. A query of one or two characters does reach
  the scheduler: it cancels the pending timeout and schedules its own, the suggestions
  stay as they are until that timeout runs, and when it runs 750 time units later the
  suggestions become empty, without a lookup or a request. The empty query makes the
  suggestions empty at once and schedules nothing.
\<close>

theorem short_query:
  "length v < 3 \<longrightarrow>
     cache (handleAutocompleteChange now v s) = cache s \<and>
     inflight (handleAutocompleteChange now v s) = inflight s \<and>
     fetchAutocomplete_start v s' = s'\<lparr>suggestions := []\<rparr> \<and>
     (v \<noteq> [] \<and> timers_ok s \<longrightarrow>
        timers (handleAutocompleteChange now v s) = [(nextTimer s, now + 750, v)] \<and>
        suggestions (handleAutocompleteChange now v s) = suggestions s \<and>
        (\<forall>t. now + 750 \<le> t \<longrightarrow>
           timerFires t (nextTimer s) (handleAutocompleteChange now v s) =
           (handleAutocompleteChange now v s)\<lparr>timers := [], suggestions := []\<rparr>)) \<and>
     (v = [] \<longrightarrow>
        suggestions (handleAutocompleteChange now v s) = [] \<and>
        set (timers (handleAutocompleteChange now v s)) \<subseteq> set (timers s) \<and>
        nextTimer (handleAutocompleteChange now v s) = nextTimer s)"
proof (intro impI conjI)
  show "cache (handleAutocompleteChange now v s) = cache s" by simp
  show "inflight (handleAutocompleteChange now v s) = inflight s" by simp
next
  assume "length v < 3"
  then show "fetchAutocomplete_start v s' = s'\<lparr>suggestions := []\<rparr>" by (rule start_short)
next
  assume "v \<noteq> [] \<and> timers_ok s"
  then show "timers (handleAutocompleteChange now v s) = [(nextTimer s, now + 750, v)]"
    by (simp add: change_short_nonempty)
next
  assume "v \<noteq> [] \<and> timers_ok s"
  then show "suggestions (handleAutocompleteChange now v s) = suggestions s"
    by (simp add: change_short_nonempty)
next
  assume short: "length v < 3" and a: "v \<noteq> [] \<and> timers_ok s"
  then have p: "pending_only now v (handleAutocompleteChange now v s)"
    and r: "debounceTimeout (handleAutocompleteChange now v s) = Some (nextTimer s)"
    by (simp_all add: change_short_nonempty)
  show "\<forall>t. now + 750 \<le> t \<longrightarrow>
           timerFires t (nextTimer s) (handleAutocompleteChange now v s) =
           (handleAutocompleteChange now v s)\<lparr>timers := [], suggestions := []\<rparr>"
    using timerFires_due [OF p _ r] short by (simp add: start_short)
next
  assume "v = []"
  then show "suggestions (handleAutocompleteChange now v s) = []"
    by (simp add: change_empty)
next
  assume "v = []"
  then show "set (timers (handleAutocompleteChange now v s)) \<subseteq> set (timers s)"
    by (simp add: change_empty)
next
  assume "v = []"
  then show "nextTimer (handleAutocompleteChange now v s) = nextTimer s"
    by (simp add: change_empty)
qed

text \<open>
  Claim C9 as stated fails: the two-character query \<open>ab\<close> is handed to the scheduler,
  which sets a timeout for it, and the suggestions shown before are still there after the
  call; and the empty query leaves the timeout that was pending for \<open>abc\<close> in place.
\<close>

theorem short_query_counterexample:
  "length (ascii ''ab'') < 3 \<and>
   timers (handleAutocompleteChange 0 (ascii ''ab'') (initial_state\<lparr>suggestions := [ascii ''abc'']\<rparr>))
     = [(1, 750, ascii ''ab'')] \<and>
   suggestions (handleAutocompleteChange 0 (ascii ''ab'')
     (initial_state\<lparr>suggestions := [ascii ''abc'']\<rparr>)) = [ascii ''abc''] \<and>
   timers (handleAutocompleteChange 10 [] (handleAutocompleteChange 0 (ascii ''abc'') initial_state))
     = [(1, 750, ascii ''abc'')]"
  by (simp add: handleAutocompleteChange_def debouncedAutocomplete_def clearTimeout_def Let_def
      initial_state_def first_name_def)

theorem short_query_witness:
  "cache (handleAutocompleteChange 5 (ascii ''ab'') initial_state) = [] \<and>
   inflight (handleAutocompleteChange 5 (ascii ''ab'') initial_state) = [] \<and>
   timers (handleAutocompleteChange 5 (ascii ''ab'') initial_state) = [(1, 755, ascii ''ab'')] \<and>
   timerFires 755 1 (handleAutocompleteChange 5 (ascii ''ab'') initial_state) =
     (handleAutocompleteChange 5 (ascii ''ab'') initial_state)\<lparr>timers := [], suggestions := []\<rparr> \<and>
   suggestions (handleAutocompleteChange 5 [] initial_state) = []"
proof -
  note a = short_query [where v = "ascii ''ab''" and now = 5 and s = initial_state
      and s' = initial_state]
  note b = short_query [where v = "[]" and now = 5 and s = initial_state and s' = initial_state]
  have l: "length (ascii ''ab'') < 3" by simp
  have ne: "ascii ''ab'' \<noteq> []" by simp
  have l0: "length ([] :: jsstring) < 3" by simp
  from a l ne timers_ok_initial
  have "cache (handleAutocompleteChange 5 (ascii ''ab'') initial_state) = cache initial_state \<and>
     inflight (handleAutocompleteChange 5 (ascii ''ab'') initial_state) = inflight initial_state \<and>
     timers (handleAutocompleteChange 5 (ascii ''ab'') initial_state) =
       [(nextTimer initial_state, 5 + 750, ascii ''ab'')] \<and>
     timerFires (5 + 750) (nextTimer initial_state)
        (handleAutocompleteChange 5 (ascii ''ab'') initial_state) =
       (handleAutocompleteChange 5 (ascii ''ab'') initial_state)\<lparr>timers := [], suggestions := []\<rparr>"
    by blast
  moreover from b l0
  have "suggestions (handleAutocompleteChange 5 [] initial_state) = []"
    by blast
  ultimately show ?thesis
    by (simp add: initial_state_def)
qed

text \<open>
  Claim C5 as stated fails. The fetch for \<open>abc\<close> is sent at time 750, the input
  changes to \<open>abcd\<close> at 800 and its fetch is sent at 1550; the answer for
  \<open>abcd\<close> arrives first, the answer for \<open>abc\<close> after it. The input is
  \<open>abcd\<close>, and the suggestions are those of \<open>abc\<close>.
\<close>

theorem stale_response_counterexample:
  "searchTerm (run example_race initial_state) = ascii ''abcd'' \<and>
   suggestions (run example_race initial_state) = [ascii ''abcxyz''] \<and>
   map_of (cache (run example_race initial_state)) (ascii ''abcd'') = Some [ascii ''abcdef'']"
  by (simp add: run_def example_race_def handleAutocompleteChange_def debouncedAutocomplete_def
      clearTimeout_def timerFires_def fetchAutocomplete_start_def fetchAutocomplete_resolve_def
      maxCacheSize_def Let_def initial_state_def first_name_def)

text \<open>
  Claim C5, amended: the answer to a request in flight, whenever it arrives, replaces the
  suggestion list by its own results, or by the empty list when the request failed,
  whatever the current input is; the input is not consulted and no answer is discarded.
\<close>

theorem response_overwrites:
  "q \<in> set (inflight s) \<longrightarrow>
     suggestions (step (Response q (Ok r)) s) = r \<and>
     suggestions (step (Response q Failed) s) = [] \<and>
     searchTerm (step (Response q (Ok r)) s) = searchTerm s \<and>
     searchTerm (step (Response q Failed) s) = searchTerm s"
  by (simp add: fetchAutocomplete_resolve_def Let_def)

theorem response_overwrites_witness:
  "suggestions (step (Response [50, 50, 50] (Ok [[1]])) example_full) = [[1]] \<and>
   suggestions (step (Response [50, 50, 50] Failed) example_full) = [] \<and>
   searchTerm (step (Response [50, 50, 50] (Ok [[1]])) example_full) = []"
proof -
  have "[50, 50, 50] \<in> set (inflight example_full)"
    by (simp add: example_full_def)
  with response_overwrites [where q = "[50, 50, 50]" and s = example_full and r = "[[1]]"]
  show ?thesis by (simp add: example_full_def initial_state_def)
qed

subsection \<open>Bursts of typing\<close>

lemma burst_fold:
  assumes "pending_only t q s" and "t0 \<le> t"
    and "\<forall>e \<in> set evs. burst_event t0 e"
  shows "pending_only (fst (last_input evs (t, q))) (snd (last_input evs (t, q))) (run evs s) \<and>
         inflight (run evs s) = inflight s \<and>
         cache (run evs s) = cache s \<and>
         suggestions (run evs s) = suggestions s"
  using assms
proof (induction evs arbitrary: s t q)
  case Nil
  then show ?case by (simp add: last_input_def run_def)
next
  case (Cons e evs)
  from Cons.prems(3) have b: "burst_event t0 e"
    and r: "\<forall>e \<in> set evs. burst_event t0 e"
    by simp_all
  show ?case
  proof (cases e)
    case (Input now v)
    from Cons.prems have ok: "timers_ok s" by (simp add: pending_only_def)
    from b Input have v: "v \<noteq> []" and w: "t0 \<le> now" by simp_all
    have p: "pending_only now v (handleAutocompleteChange now v s)"
      using ok v by (rule change_short_nonempty)
    have su: "suggestions (handleAutocompleteChange now v s) = suggestions s"
      using ok v by (rule change_short_nonempty)
    from Cons.IH [OF p w r] su Input show ?thesis
      by (simp add: last_input_def run_Cons)
  next
    case (Timeout now j)
    from b Timeout have "now < t0 + 750" by simp
    with Cons.prems(2) have "now < t + 750" by simp
    with Cons.prems(1) have same: "timerFires now j s = s" by (rule timerFires_early)
    from Cons.IH [OF Cons.prems(1) Cons.prems(2) r] Timeout same show ?thesis
      by (simp add: last_input_def run_Cons)
  next
    case (Response q r)
    with b show ?thesis by simp
  next
    case Clear
    with b show ?thesis by simp
  qed
qed

text \<open>
  What holds of \<open>handleAutocompleteChange\<close> as long as no input of the burst is empty. The
  burst begins with an input at time \<open>tfirst\<close> and goes on with inputs and attempts of the
  host to run a timeout, all before \<open>tfirst + 750\<close>, in any order: after the burst exactly
  one timeout is pending, it is due 750 time units after the last input and carries the
  last value; no attempt before that time runs it; the burst has sent no request and
  changed neither the cache nor the suggestions; and once due, the timeout runs
  \<open>fetchAutocomplete\<close> for the last value and nothing is left pending.
\<close>

lemma debounce_burst_nonempty:
  assumes ok: "timers_ok s" and ne: "qfirst \<noteq> []"
    and w: "\<forall>e \<in> set rest. burst_event tfirst e"
    and l: "last_input rest (tfirst, qfirst) = (tlast, qlast)"
  shows "\<exists>i. debounceTimeout (run (Input tfirst qfirst # rest) s) = Some i \<and>
           timers (run (Input tfirst qfirst # rest) s) = [(i, tlast + 750, qlast)] \<and>
           (\<forall>t. tlast + 750 \<le> t \<longrightarrow>
              timerFires t i (run (Input tfirst qfirst # rest) s) =
              fetchAutocomplete_start qlast
                ((run (Input tfirst qfirst # rest) s)\<lparr>timers := []\<rparr>))"
    and "\<forall>t j. t < tlast + 750 \<longrightarrow>
           timerFires t j (run (Input tfirst qfirst # rest) s) =
           run (Input tfirst qfirst # rest) s"
    and "inflight (run (Input tfirst qfirst # rest) s) = inflight s"
    and "cache (run (Input tfirst qfirst # rest) s) = cache s"
    and "suggestions (run (Input tfirst qfirst # rest) s) = suggestions s"
proof -
  define s1 where "s1 = handleAutocompleteChange tfirst qfirst s"
  define s' where "s' = run (Input tfirst qfirst # rest) s"
  have p1: "pending_only tfirst qfirst s1"
    unfolding s1_def using ok ne by (rule change_short_nonempty)
  have su1: "suggestions s1 = suggestions s"
    unfolding s1_def using ok ne by (rule change_short_nonempty)
  have s': "s' = run rest s1"
    by (simp add: s'_def s1_def run_Cons)
  from burst_fold [OF p1 order_refl w] l
  have p: "pending_only tlast qlast s'"
    and same: "inflight s' = inflight s1" "cache s' = cache s1" "suggestions s' = suggestions s1"
    by (simp_all add: s')
  from p obtain i where i: "debounceTimeout s' = Some i" "timers s' = [(i, tlast + 750, qlast)]"
    by (auto simp: pending_only_def)
  have due: "\<forall>t. tlast + 750 \<le> t \<longrightarrow>
      timerFires t i s' = fetchAutocomplete_start qlast (s'\<lparr>timers := []\<rparr>)"
    using timerFires_due [OF p _ i(1)] by blast
  from i due
  show "\<exists>i. debounceTimeout (run (Input tfirst qfirst # rest) s) = Some i \<and>
           timers (run (Input tfirst qfirst # rest) s) = [(i, tlast + 750, qlast)] \<and>
           (\<forall>t. tlast + 750 \<le> t \<longrightarrow>
              timerFires t i (run (Input tfirst qfirst # rest) s) =
              fetchAutocomplete_start qlast
                ((run (Input tfirst qfirst # rest) s)\<lparr>timers := []\<rparr>))"
    unfolding s'_def [symmetric] by blast
  show "\<forall>t j. t < tlast + 750 \<longrightarrow>
         timerFires t j (run (Input tfirst qfirst # rest) s) =
         run (Input tfirst qfirst # rest) s"
    unfolding s'_def [symmetric] using timerFires_early [OF p] by blast
  show "inflight (run (Input tfirst qfirst # rest) s) = inflight s"
    unfolding s'_def [symmetric] using same by (simp add: s1_def)
  show "cache (run (Input tfirst qfirst # rest) s) = cache s"
    unfolding s'_def [symmetric] using same by (simp add: s1_def)
  show "suggestions (run (Input tfirst qfirst # rest) s) = suggestions s"
    unfolding s'_def [symmetric] using same su1 by simp
qed

lemma example_burst_pending:
  "timers (run example_burst initial_state) = [(10, 840, ascii ''black lotu'')] \<and>
   inflight (run example_burst initial_state) = [] \<and>
   timerFires 100 10 (run example_burst initial_state) = run example_burst initial_state"
proof -
  define rest where "rest = tl example_burst"
  have eb: "example_burst = Input 0 (ascii ''b'') # rest"
    by (simp add: rest_def example_burst_def)
  have ne: "ascii ''b'' \<noteq> []" by simp
  have w: "\<forall>e \<in> set rest. burst_event 0 e"
    by (simp add: rest_def example_burst_def)
  have l: "last_input rest (0, ascii ''b'') = (90, ascii ''black lotu'')"
    by (simp add: rest_def example_burst_def last_input_def)
  note a = debounce_burst_nonempty [OF timers_ok_initial ne w l, folded eb]
  have r: "debounceTimeout (run example_burst initial_state) = Some 10"
    by (simp add: example_burst_def run_def initial_state_def handleAutocompleteChange_def
        debouncedAutocomplete_def clearTimeout_def Let_def)
  from a(1) r have "timers (run example_burst initial_state) = [(10, 840, ascii ''black lotu'')]"
    by auto
  moreover from a(3) have "inflight (run example_burst initial_state) = []"
    by (simp add: initial_state_def)
  moreover from a(2) have "timerFires 100 10 (run example_burst initial_state) =
      run example_burst initial_state"
    by simp
  ultimately show ?thesis by blast
qed

text \<open>
  Claim C4. Every call of \<open>requestSuggestions\<close>, which is \<open>handleAutocompleteChange\<close>,
  should cancel the fetch scheduled before, so that a burst inside the quiet period
  leaves at most one fetch scheduled, for the last query of the burst. The branch of
  \<open>handleAutocompleteChange\<close> for the empty string empties the suggestions and cancels
  nothing. After the inputs \<open>abc\<close> at time 0, \<open>abcd\<close> at 40 and the empty string at 90,
  the search term is empty and the timeout of \<open>abcd\<close> is still pending; when it runs at
  790, a request for \<open>abcd\<close> is sent, for a query that is not the last of the burst.
  \<open>handleClear\<close>, which empties the field as well, does cancel the pending timeout.
\<close>

theorem empty_input_keeps_timeout:
  "searchTerm (run example_emptied initial_state) = [] \<and>
   suggestions (run example_emptied initial_state) = [] \<and>
   timers (run example_emptied initial_state) = [(2, 790, ascii ''abcd'')] \<and>
   inflight (run (example_emptied @ [Timeout 790 2]) initial_state) = [ascii ''abcd''] \<and>
   timers (run [Input 0 (ascii ''abc''), Input 40 (ascii ''abcd''), Clear] initial_state) = []"
  by (simp add: example_emptied_def run_def initial_state_def handleAutocompleteChange_def
      debouncedAutocomplete_def clearTimeout_def Let_def timerFires_def
      fetchAutocomplete_start_def handleClear_def reset_selection_def first_name_def)

subsection \<open>An answer for a query that is cached already\<close>

lemma example_query_eq [simp]: "(example_query m = example_query n) = (m = n)"
proof
  assume "example_query m = example_query n"
  then have "m div 10 = n div 10" and "m mod 10 = n mod 10"
    by (simp_all add: example_query_def)
  then show "m = n" by (metis div_mult_mod_eq)
qed simp

lemma example_query_length [simp]: "length (example_query n) = 3" "example_query n \<noteq> []"
  by (simp_all add: example_query_def)

lemma nextTimer_change:
  "v \<noteq> [] \<Longrightarrow> nextTimer (handleAutocompleteChange now v s) = Suc (nextTimer s)"
  by (cases "debounceTimeout s")
    (simp_all add: handleAutocompleteChange_def debouncedAutocomplete_def clearTimeout_def
      reset_selection_def Let_def)

lemma timerFires_miss:
  assumes "timers s = [(i, due, q)]" and "due \<le> now" and "3 \<le> length q"
    and "q \<notin> fst ` set (cache s)"
  shows "timerFires now i s =
    s\<lparr>timers := [], autocompleteLoading := True, inflight := inflight s @ [q]\<rparr>"
proof -
  from assms(4) have "map_of (cache s) q = None" by (simp add: map_of_eq_None_iff)
  with assms(1,2,3) show ?thesis
    by (simp add: timerFires_def fetchAutocomplete_start_def)
qed

lemma snapshot_input:
  assumes "snapshot s n c w" and "v \<noteq> []"
  shows "snapshot (step (Input now v) s) (Suc n) c w"
    and "timers (step (Input now v) s) = [(n, now + 750, v)]"
  using assms
  by (simp_all add: snapshot_def timers_ok_change nextTimer_change change_short_nonempty)

lemma snapshot_miss:
  assumes "snapshot s n c w" and "timers s = [(i, due, q)]" and "due \<le> now"
    and "3 \<le> length q" and "q \<notin> fst ` set c"
  shows "snapshot (step (Timeout now i) s) n c (w @ [q])"
    and "timers (step (Timeout now i) s) = []"
proof -
  from assms(1) have c: "cache s = c" and ok: "timers_ok s"
    by (simp_all add: snapshot_def)
  have e: "timerFires now i s =
      s\<lparr>timers := [], autocompleteLoading := True, inflight := inflight s @ [q]\<rparr>"
    using assms(2,3,4) assms(5) [folded c] by (rule timerFires_miss)
  have "timers_ok (timerFires now i s)" using ok by (rule timers_ok_timerFires)
  then show "snapshot (step (Timeout now i) s) n c (w @ [q])"
    using assms(1) by (simp add: snapshot_def) (simp add: e)
  show "timers (step (Timeout now i) s) = []"
    by (simp add: e)
qed

lemma snapshot_answer:
  assumes "snapshot s n c w" and "q \<in> set w"
  shows "snapshot (step (Response q (Ok r)) s) n
           (AList.update q r (if 50 \<le> length c then evict_oldest c else c)) (remove1 q w)"
    and "timers (step (Response q (Ok r)) s) = timers s"
proof -
  from assms have i: "q \<in> set (inflight s)" by (simp add: snapshot_def)
  from assms(1) have "timers_ok s" by (simp add: snapshot_def)
  then have ok: "timers_ok (fetchAutocomplete_resolve q (Ok r) s)"
    by (rule timers_ok_same) simp_all
  show "snapshot (step (Response q (Ok r)) s) n
      (AList.update q r (if 50 \<le> length c then evict_oldest c else c)) (remove1 q w)"
    using assms(1) i ok
    by (simp add: snapshot_def resolve_cache cache_after_eviction_def maxCacheSize_def)
      (simp add: fetchAutocomplete_resolve_def Let_def)
  show "timers (step (Response q (Ok r)) s) = timers s"
    using i by simp
qed

lemma update_last:
  "k \<notin> fst ` set al \<Longrightarrow> AList.update k v (al @ [(k, u)]) = al @ [(k, v)]"
  by (induction al) auto

lemma snapshot_round:
  assumes s: "snapshot s n c []" and new: "example_query n \<notin> fst ` set c"
    and room: "length c < 50"
  shows "snapshot (run (example_round n) s) (Suc n)
    (c @ [(example_query n, [example_query n])]) []"
proof -
  define s1 where "s1 = step (Input (1000 * n) (example_query n)) s"
  define s2 where "s2 = step (Timeout (1000 * n + 750) n) s1"
  define s3 where "s3 = step (Response (example_query n) (Ok [example_query n])) s2"
  have ne: "example_query n \<noteq> []" by simp
  have 1: "snapshot s1 (Suc n) c []" and t1: "timers s1 = [(n, 1000 * n + 750, example_query n)]"
    unfolding s1_def using s ne by (rule snapshot_input)+
  have three: "3 \<le> length (example_query n)" by simp
  have 2: "snapshot s2 (Suc n) c ([] @ [example_query n])"
    unfolding s2_def using 1 t1 order_refl three new by (rule snapshot_miss)
  have mem: "example_query n \<in> set ([] @ [example_query n])" by simp
  have 3: "snapshot s3 (Suc n)
      (AList.update (example_query n) [example_query n]
         (if 50 \<le> length c then evict_oldest c else c))
      (remove1 (example_query n) ([] @ [example_query n]))"
    unfolding s3_def using 2 mem by (rule snapshot_answer)
  have r: "run (example_round n) s = s3"
    by (simp add: example_round_def run_def s1_def s2_def s3_def)
  from 3 room new show ?thesis
    unfolding r by (simp add: length_update_new)
qed

lemma snapshot_fill:
  "n \<le> 50 \<Longrightarrow>
     snapshot (run (concat (map example_round [1..<Suc n])) initial_state) (Suc n)
       (map (\<lambda>k. (example_query k, [example_query k])) [1..<Suc n]) []"
proof (induction n)
  case 0
  show ?case
    using timers_ok_initial by (simp add: snapshot_def run_def) (simp add: initial_state_def)
next
  case (Suc n)
  define s where "s = run (concat (map example_round [1..<Suc n])) initial_state"
  define c where "c = map (\<lambda>k. (example_query k, [example_query k])) [1..<Suc n]"
  from Suc have s: "snapshot s (Suc n) c []"
    by (simp add: s_def c_def)
  have new: "example_query (Suc n) \<notin> fst ` set c"
    by (auto simp: c_def)
  have room: "length c < 50"
    using Suc.prems by (simp add: c_def)
  have u: "[1..<Suc (Suc n)] = [1..<Suc n] @ [Suc n]"
    by simp
  have "run (concat (map example_round [1..<Suc (Suc n)])) initial_state =
      run (example_round (Suc n)) s"
    unfolding u by (simp add: run_append s_def)
  moreover have "map (\<lambda>k. (example_query k, [example_query k])) [1..<Suc (Suc n)] =
      c @ [(example_query (Suc n), [example_query (Suc n)])]"
    unfolding u by (simp add: c_def)
  ultimately show ?case
    using snapshot_round [OF s new room] by simp
qed

lemma snapshot_filled:
  "snapshot (run example_fill initial_state) 51
     (map (\<lambda>k. (example_query k, [example_query k])) [1..<51]) []"
  using snapshot_fill [of 50] by (simp add: example_fill_def del: upt_rec_numeral)

lemma example_query_image [simp]: "(example_query m \<in> example_query ` A) = (m \<in> A)"
  by auto

lemma example_entries_keys:
  "fst ` set (map (\<lambda>k. (example_query k, [example_query k])) [a..<b]) =
     example_query ` {a..<b}"
  by (simp add: image_image)

lemma example_entries_distinct:
  "distinct (map fst (map (\<lambda>k. (example_query k, [example_query k])) [a..<b]))"
  by (simp add: distinct_map comp_def inj_on_def)

lemma example_answered_snapshot:
  "snapshot (run example_answered initial_state) 54
     (map (\<lambda>k. (example_query k, [example_query k])) [2..<51] @
      [(example_query 0, [example_query 0])]) [example_query 0]"
proof -
  define c where "c = map (\<lambda>k. (example_query k, [example_query k])) [1..<51]"
  define s0 where "s0 = run example_fill initial_state"
  define s1 where "s1 = step (Input 51000 (example_query 0)) s0"
  define s2 where "s2 = step (Timeout 51750 51) s1"
  define s3 where "s3 = step (Input 52000 (example_query 0 @ [48])) s2"
  define s4 where "s4 = step (Input 52100 (example_query 0)) s3"
  define s5 where "s5 = step (Timeout 52850 53) s4"
  define s6 where "s6 = step (Response (example_query 0) (Ok [example_query 0])) s5"
  have new: "example_query 0 \<notin> fst ` set c"
    unfolding c_def example_entries_keys by simp
  have three: "3 \<le> length (example_query 0)" by simp
  have 0: "snapshot s0 51 c []"
    unfolding s0_def c_def by (rule snapshot_filled)
  have 1: "snapshot s1 (Suc 51) c []" and t1: "timers s1 = [(51, 51000 + 750, example_query 0)]"
    unfolding s1_def using 0 by (rule snapshot_input; simp)+
  have 2: "snapshot s2 (Suc 51) c ([] @ [example_query 0])"
    unfolding s2_def using 1 t1 _ three new by (rule snapshot_miss) simp
  have 3: "snapshot s3 (Suc (Suc 51)) c ([] @ [example_query 0])"
    unfolding s3_def using 2 by (rule snapshot_input) simp
  have 4: "snapshot s4 (Suc (Suc (Suc 51))) c ([] @ [example_query 0])"
    and t4: "timers s4 = [(Suc (Suc 51), 52100 + 750, example_query 0)]"
    unfolding s4_def using 3 by (rule snapshot_input; simp)+
  have id: "Suc (Suc 51) = 53" by simp
  have 5: "snapshot s5 (Suc (Suc (Suc 51))) c (([] @ [example_query 0]) @ [example_query 0])"
    unfolding s5_def using 4 t4 [unfolded id] _ three new by (rule snapshot_miss) simp
  have mem: "example_query 0 \<in> set (([] @ [example_query 0]) @ [example_query 0])" by simp
  have 6: "snapshot s6 (Suc (Suc (Suc 51)))
      (AList.update (example_query 0) [example_query 0]
         (if 50 \<le> length c then evict_oldest c else c))
      (remove1 (example_query 0) (([] @ [example_query 0]) @ [example_query 0]))"
    unfolding s6_def using 5 mem by (rule snapshot_answer)
  have full: "length c = 50" by (simp add: c_def)
  have d: "distinct (map fst c)"
    unfolding c_def by (rule example_entries_distinct)
  have u: "[1..<51] = 1 # [2..<51]"
    by (simp add: upt_conv_Cons numeral_2_eq_2 del: upt_rec_numeral)
  have tl: "tl c = map (\<lambda>k. (example_query k, [example_query k])) [2..<51]"
    unfolding c_def u by simp
  have new': "example_query 0 \<notin> fst ` set (tl c)"
    unfolding tl example_entries_keys by simp
  have e: "AList.update (example_query 0) [example_query 0]
         (if 50 \<le> length c then evict_oldest c else c) =
      map (\<lambda>k. (example_query k, [example_query k])) [2..<51] @
      [(example_query 0, [example_query 0])]"
  proof -
    have ev: "(if 50 \<le> length c then evict_oldest c else c) = tl c"
      using full by (simp add: evict_oldest_distinct [OF d])
    have "AList.update (example_query 0) [example_query 0] (tl c) =
        tl c @ [(example_query 0, [example_query 0])]"
      using new' by (rule length_update_new)
    then show ?thesis unfolding ev tl .
  qed
  have r: "run example_answered initial_state = s6"
    by (simp add: example_answered_def run_append run_Cons run_Nil
        s0_def s1_def s2_def s3_def s4_def s5_def s6_def)
  from 6 show ?thesis
    unfolding r e by simp
qed

lemma example_duplicate_snapshot:
  "snapshot (run example_duplicate initial_state) 54
     (map (\<lambda>k. (example_query k, [example_query k])) [3..<51] @
      [(example_query 0, [example_query 0])]) []"
proof -
  define c where "c = map (\<lambda>k. (example_query k, [example_query k])) [2..<51] @
      [(example_query 0, [example_query 0])]"
  define rest where "rest = map (\<lambda>k. (example_query k, [example_query k])) [3..<51]"
  define s where "s = run example_answered initial_state"
  have 0: "snapshot s 54 c [example_query 0]"
    unfolding s_def c_def by (rule example_answered_snapshot)
  have mem: "example_query 0 \<in> set [example_query 0]" by simp
  have 1: "snapshot (step (Response (example_query 0) (Ok [example_query 0])) s) 54
      (AList.update (example_query 0) [example_query 0]
         (if 50 \<le> length c then evict_oldest c else c))
      (remove1 (example_query 0) [example_query 0])"
    using 0 mem by (rule snapshot_answer)
  have full: "length c = 50" by (simp add: c_def)
  have d: "distinct (map fst c)"
    by (simp add: c_def distinct_map comp_def inj_on_def image_image del: upt_rec_numeral)
  have u: "[2..<51] = 2 # [3..<51]"
    by (simp add: upt_conv_Cons del: upt_rec_numeral)
  have tl: "tl c = rest @ [(example_query 0, [example_query 0])]"
    unfolding c_def rest_def u by simp
  have new: "example_query 0 \<notin> fst ` set rest"
    unfolding rest_def example_entries_keys by simp
  have e: "AList.update (example_query 0) [example_query 0]
         (if 50 \<le> length c then evict_oldest c else c) =
      rest @ [(example_query 0, [example_query 0])]"
    using full by (simp add: evict_oldest_distinct [OF d] tl update_last [OF new])
  have r: "run example_duplicate initial_state =
      step (Response (example_query 0) (Ok [example_query 0])) s"
    by (simp add: example_duplicate_def run_append run_Cons run_Nil s_def)
  from 1 show ?thesis
    unfolding r e rest_def by simp
qed

text \<open>
  Claim C3. The cache is meant as an LRU cache of 50 entries: after a 51st distinct query
  has been inserted, the least recently used entry is gone and the other 50 are
  retrievable. When the answer for a query arrives, \<open>fetchAutocomplete\<close> removes the
  oldest entry whenever the cache holds 50 entries, also when the query is cached already
  and \<open>cache.set\<close> only overwrites its entry. Fifty queries, \<open>q01\<close> to \<open>q50\<close>, fill the
  cache; then \<open>q00\<close> is requested twice before its first answer arrives. The first answer
  removes \<open>q01\<close> and inserts \<open>q00\<close>, and 50 entries remain. The second answer removes
  \<open>q02\<close> and inserts nothing: 49 entries remain, and \<open>q02\<close>, one of the 50 queries used
  last, is no longer found.
\<close>

theorem duplicate_answer_evicts:
  "map fst (cache (run example_fill initial_state)) = map example_query [1..<51] \<and>
   inflight (run example_answered initial_state) = [example_query 0] \<and>
   map fst (cache (run example_answered initial_state)) =
     map example_query [2..<51] @ [example_query 0] \<and>
   length (cache (run example_answered initial_state)) = 50 \<and>
   map fst (cache (run example_duplicate initial_state)) =
     map example_query [3..<51] @ [example_query 0] \<and>
   length (cache (run example_duplicate initial_state)) = 49 \<and>
   map_of (cache (run example_duplicate initial_state)) (example_query 2) = None"
proof -
  have a: "cache (run example_fill initial_state) =
      map (\<lambda>k. (example_query k, [example_query k])) [1..<51]"
    using snapshot_filled by (simp add: snapshot_def)
  have b: "cache (run example_answered initial_state) =
      map (\<lambda>k. (example_query k, [example_query k])) [2..<51] @
      [(example_query 0, [example_query 0])]"
    and i: "inflight (run example_answered initial_state) = [example_query 0]"
    using example_answered_snapshot by (simp_all add: snapshot_def)
  have c: "cache (run example_duplicate initial_state) =
      map (\<lambda>k. (example_query k, [example_query k])) [3..<51] @
      [(example_query 0, [example_query 0])]"
    using example_duplicate_snapshot by (simp add: snapshot_def)
  have 1: "map fst (cache (run example_fill initial_state)) = map example_query [1..<51]"
    unfolding a by (simp add: comp_def del: upt_rec_numeral)
  have 2: "map fst (cache (run example_answered initial_state)) =
      map example_query [2..<51] @ [example_query 0]"
    unfolding b by (simp add: comp_def del: upt_rec_numeral)
  have 3: "length (cache (run example_answered initial_state)) = 50"
    unfolding b by (simp del: upt_rec_numeral)
  have 4: "map fst (cache (run example_duplicate initial_state)) =
      map example_query [3..<51] @ [example_query 0]"
    unfolding c by (simp add: comp_def del: upt_rec_numeral)
  have 5: "length (cache (run example_duplicate initial_state)) = 49"
    unfolding c by (simp del: upt_rec_numeral)
  have "example_query 2 \<notin> fst ` set (cache (run example_duplicate initial_state))"
    unfolding c by (simp add: image_image del: upt_rec_numeral)
  then have 6: "map_of (cache (run example_duplicate initial_state)) (example_query 2) = None"
    by (rule map_of_eq_None_iff [THEN iffD2])
  from 1 i 2 3 4 5 6 show ?thesis by blast
qed

section \<open>Ordering of collector numbers\<close>

lemma fl_1: "fl (1) = Fin 1"
  using fl_pos [of "1" "0" 4503599627370496]
  by (simp add: ilog2_def compute_bitlen round_half_even_def pow2_def Let_def)

lemma fl_9: "fl (9) = Fin 9"
  using fl_pos [of "9" "3" 5066549580791808]
  by (simp add: ilog2_def compute_bitlen round_half_even_def pow2_def Let_def)

lemma fl_10: "fl (10) = Fin 10"
  using fl_pos [of "10" "3" 5629499534213120]
  by (simp add: ilog2_def compute_bitlen round_half_even_def pow2_def Let_def)

lemma parseInt_examples:
  "parseInt (ascii ''10'') = Fin 10"
  "parseInt (ascii ''9'') = Fin 9"
  "parseInt (ascii ''A'') = NaN"
  by (simp_all add: parseInt_def isWhiteSpace_def isDigit_def digits_value_def fl_9 fl_10)

lemmas parseInt_values = parseInt_examples [simplified]

text \<open>
  Claim C6 as stated fails. In the group \<open>10\<close>, \<open>9\<close>, \<open>A\<close> one value does not parse, so
  the comparison is to be lexicographic for the whole group, which puts \<open>10\<close> before
  \<open>9\<close>; the comparator compares the two as numbers and puts \<open>9\<close> before \<open>10\<close>.
\<close>

theorem collector_order_counterexample:
  "parseInt (ascii ''A'') = NaN \<and>
   compareCollectorNumbers lex_compare (ascii ''10'') (ascii ''9'') = Fin 1 \<and>
   spec_compare [ascii ''10'', ascii ''9'', ascii ''A''] (ascii ''10'') (ascii ''9'') = Fin (- 1)"
  by (simp add: compareCollectorNumbers_def spec_compare_def parseInt_values fl_1)

text \<open>
  Claim C6, amended: the comparison is chosen for each pair, not for the group. For every
  pair of values that both parse as an integer the comparator returns the difference of
  the two numbers, whatever else the group holds; for every pair with a value that does
  not parse it returns \<open>localeCompare\<close> of the raw strings. Hence the comparison is
  numeric throughout a group in which every value parses.
\<close>

theorem collector_order_per_pair:
  "(parseInt a \<noteq> NaN \<and> parseInt b \<noteq> NaN \<longrightarrow>
      compareCollectorNumbers lc a b = js_sub (parseInt a) (parseInt b)) \<and>
   (parseInt a = NaN \<or> parseInt b = NaN \<longrightarrow> compareCollectorNumbers lc a b = lc a b) \<and>
   ((\<forall>x \<in> set grp. parseInt x \<noteq> NaN) \<and> a \<in> set grp \<and> b \<in> set grp \<longrightarrow>
      compareCollectorNumbers lc a b = js_sub (parseInt a) (parseInt b) \<and>
      compareCollectorNumbers lc a b = spec_compare grp a b)"
  by (auto simp: compareCollectorNumbers_def spec_compare_def Let_def)

theorem collector_order_per_pair_witness:
  "compareCollectorNumbers lex_compare (ascii ''10'') (ascii ''9'') = Fin 1 \<and>
   compareCollectorNumbers lex_compare (ascii ''10'') (ascii ''A'') = Fin (- 1) \<and>
   compareCollectorNumbers lex_compare (ascii ''10'') (ascii ''9'') =
     spec_compare [ascii ''10'', ascii ''9''] (ascii ''10'') (ascii ''9'')"
proof -
  note a = collector_order_per_pair [where a = "ascii ''10''" and b = "ascii ''9''"
      and lc = lex_compare and grp = "[ascii ''10'', ascii ''9'']"]
  note b = collector_order_per_pair [where a = "ascii ''10''" and b = "ascii ''A''"
      and lc = lex_compare and grp = "[]"]
  have p: "parseInt (ascii ''10'') \<noteq> NaN \<and> parseInt (ascii ''9'') \<noteq> NaN"
    by (simp add: parseInt_values)
  have n: "parseInt (ascii ''10'') = NaN \<or> parseInt (ascii ''A'') = NaN"
    by (simp add: parseInt_values)
  have g: "(\<forall>x \<in> set [ascii ''10'', ascii ''9'']. parseInt x \<noteq> NaN) \<and>
      ascii ''10'' \<in> set [ascii ''10'', ascii ''9''] \<and>
      ascii ''9'' \<in> set [ascii ''10'', ascii ''9'']"
    using p by simp
  from a p g have e1:
    "compareCollectorNumbers lex_compare (ascii ''10'') (ascii ''9'') =
       js_sub (parseInt (ascii ''10'')) (parseInt (ascii ''9''))"
    and e2: "compareCollectorNumbers lex_compare (ascii ''10'') (ascii ''9'') =
       spec_compare [ascii ''10'', ascii ''9''] (ascii ''10'') (ascii ''9'')"
    by blast+
  from b n have e3:
    "compareCollectorNumbers lex_compare (ascii ''10'') (ascii ''A'') =
       lex_compare (ascii ''10'') (ascii ''A'')"
    by blast
  have v1: "js_sub (parseInt (ascii ''10'')) (parseInt (ascii ''9'')) = Fin 1"
    by (simp add: parseInt_values fl_1)
  have v3: "lex_compare (ascii ''10'') (ascii ''A'') = Fin (- 1)"
    by simp
  from e1 v1 have "compareCollectorNumbers lex_compare (ascii ''10'') (ascii ''9'') = Fin 1"
    by (rule trans)
  moreover from e3 v3
  have "compareCollectorNumbers lex_compare (ascii ''10'') (ascii ''A'') = Fin (- 1)"
    by (rule trans)
  ultimately show ?thesis using e2 by blast
qed


section \<open>Resolving a variant and the selection path\<close>

lemma defaultCard_Some:
  "defaultCard m = Some c \<Longrightarrow>
     c \<in> set m \<and> lang c = defaultLang (languages_of m) \<and>
     finishMatch c (defaultFinish (finishes_of m))"
  by (auto simp: defaultCard_def find_Some_iff)

lemma defaultCard_None:
  "(defaultCard m = None) =
     (\<forall>c \<in> set m. \<not> (lang c = defaultLang (languages_of m) \<and>
        finishMatch c (defaultFinish (finishes_of m))))"
  by (auto simp: defaultCard_def find_None_iff)

lemma collectorNumberSelect_applies:
  "selectedSet s = Some info \<Longrightarrow> n \<noteq> [] \<Longrightarrow> matchingCards s (code info) n \<noteq> [] \<Longrightarrow>
     handleCollectorNumberSelect n s =
       applyDefaults (matchingCards s (code info) n) (s\<lparr>selectedCollectorNumber := n\<rparr>)"
  by (simp add: handleCollectorNumberSelect_def Let_def)

lemma setSelect_applies:
  "List.find (\<lambda>st. code st = setCode) (uniqueSets s) = Some info \<Longrightarrow>
   or_empty (first (srt (compareCollectorNumbers lc) (collectorNumbers info))) = n \<Longrightarrow>
   n \<noteq> [] \<Longrightarrow> matchingCards s (code info) n \<noteq> [] \<Longrightarrow>
     handleSetSelect lc srt setCode s =
       applyDefaults (matchingCards s (code info) n)
         (s\<lparr>selectedSet := Some info,
            availableCollectorNumbers := srt (compareCollectorNumbers lc) (collectorNumbers info),
            selectedCollectorNumber := n\<rparr>)"
  by (simp add: handleSetSelect_def Let_def)

lemma defaultCard_first:
  assumes "i < length m"
    and "lang (m ! i) = defaultLang (languages_of m) \<and>
         finishMatch (m ! i) (defaultFinish (finishes_of m))"
    and "\<forall>j<i. \<not> (lang (m ! j) = defaultLang (languages_of m) \<and>
                   finishMatch (m ! j) (defaultFinish (finishes_of m)))"
  shows "defaultCard m = Some (m ! i)"
  unfolding defaultCard_def find_Some_iff using assms by blast

lemma defaultCard_exists:
  assumes "\<exists>c \<in> set m. lang c = defaultLang (languages_of m) \<and>
             finishMatch c (defaultFinish (finishes_of m))"
  shows "\<exists>i<length m.
           (lang (m ! i) = defaultLang (languages_of m) \<and>
            finishMatch (m ! i) (defaultFinish (finishes_of m))) \<and>
           (\<forall>j<i. \<not> (lang (m ! j) = defaultLang (languages_of m) \<and>
                      finishMatch (m ! j) (defaultFinish (finishes_of m)))) \<and>
           defaultCard m = Some (m ! i)"
proof -
  from assms have "defaultCard m \<noteq> None"
    by (simp only: defaultCard_None) blast
  then obtain c where c: "defaultCard m = Some c" by blast
  then obtain i where "i < length m"
    and "lang (m ! i) = defaultLang (languages_of m) \<and>
         finishMatch (m ! i) (defaultFinish (finishes_of m))"
    and "c = m ! i"
    and "\<forall>j<i. \<not> (lang (m ! j) = defaultLang (languages_of m) \<and>
                   finishMatch (m ! j) (defaultFinish (finishes_of m)))"
    unfolding defaultCard_def find_Some_iff by blast
  with c show ?thesis by blast
qed

text \<open>
  Claim C7, amended: for every non-empty group of records sharing set code and collector
  number, the resolved variant is the first record of the group that matches both the
  default language and the default finish: whenever some record matches both, the one
  resolved matches both and no record before it in the group does. If no record matches
  both, the resolved variant is the first record of the group, whether or not some record
  matches the language alone or the finish alone. The selected language and finish are
  the defaults. Both \<open>handleCollectorNumberSelect\<close> and the auto-advance of
  \<open>handleSetSelect\<close> resolve the variant in this way.
\<close>

theorem resolve_default_variant:
  "(m = c1 # others \<longrightarrow>
      (\<forall>i. i < length m \<and>
           (lang (m ! i) = defaultLang (languages_of m) \<and>
            finishMatch (m ! i) (defaultFinish (finishes_of m))) \<and>
           (\<forall>j<i. \<not> (lang (m ! j) = defaultLang (languages_of m) \<and>
                      finishMatch (m ! j) (defaultFinish (finishes_of m)))) \<longrightarrow>
           selectedCardVersion (applyDefaults m s) = Some (m ! i)) \<and>
      ((\<exists>c \<in> set m. lang c = defaultLang (languages_of m) \<and>
                      finishMatch c (defaultFinish (finishes_of m))) \<longrightarrow>
         (\<exists>i<length m.
            (lang (m ! i) = defaultLang (languages_of m) \<and>
             finishMatch (m ! i) (defaultFinish (finishes_of m))) \<and>
            (\<forall>j<i. \<not> (lang (m ! j) = defaultLang (languages_of m) \<and>
                       finishMatch (m ! j) (defaultFinish (finishes_of m)))) \<and>
            selectedCardVersion (applyDefaults m s) = Some (m ! i))) \<and>
      ((\<forall>c \<in> set m. \<not> (lang c = defaultLang (languages_of m) \<and>
                         finishMatch c (defaultFinish (finishes_of m)))) \<longrightarrow>
         selectedCardVersion (applyDefaults m s) = Some c1) \<and>
      selectedLanguage (applyDefaults m s) = defaultLang (languages_of m) \<and>
      selectedFinish (applyDefaults m s) = defaultFinish (finishes_of m)) \<and>
   (selectedSet s = Some info \<and> n \<noteq> [] \<and> matchingCards s (code info) n = m \<and> m \<noteq> [] \<longrightarrow>
      handleCollectorNumberSelect n s = applyDefaults m (s\<lparr>selectedCollectorNumber := n\<rparr>)) \<and>
   (List.find (\<lambda>st. code st = setCode) (uniqueSets s) = Some info \<and>
    or_empty (first (srt (compareCollectorNumbers lc) (collectorNumbers info))) = n \<and>
    n \<noteq> [] \<and> matchingCards s (code info) n = m \<and> m \<noteq> [] \<longrightarrow>
      handleSetSelect lc srt setCode s =
        applyDefaults m
          (s\<lparr>selectedSet := Some info,
             availableCollectorNumbers := srt (compareCollectorNumbers lc) (collectorNumbers info),
             selectedCollectorNumber := n\<rparr>))"
proof (intro conjI impI allI)
  fix i
  assume "i < length m \<and>
    (lang (m ! i) = defaultLang (languages_of m) \<and>
     finishMatch (m ! i) (defaultFinish (finishes_of m))) \<and>
    (\<forall>j<i. \<not> (lang (m ! j) = defaultLang (languages_of m) \<and>
               finishMatch (m ! j) (defaultFinish (finishes_of m))))"
  then have "defaultCard m = Some (m ! i)"
    using defaultCard_first [of i m] by blast
  then show "selectedCardVersion (applyDefaults m s) = Some (m ! i)"
    by (simp add: applyDefaults_def)
next
  assume "\<exists>c \<in> set m. lang c = defaultLang (languages_of m) \<and>
    finishMatch c (defaultFinish (finishes_of m))"
  then obtain i where i: "i < length m"
    "lang (m ! i) = defaultLang (languages_of m) \<and>
     finishMatch (m ! i) (defaultFinish (finishes_of m))"
    "\<forall>j<i. \<not> (lang (m ! j) = defaultLang (languages_of m) \<and>
               finishMatch (m ! j) (defaultFinish (finishes_of m)))"
    "defaultCard m = Some (m ! i)"
    using defaultCard_exists [of m] by blast
  from i(4) have "selectedCardVersion (applyDefaults m s) = Some (m ! i)"
    by (simp add: applyDefaults_def)
  with i(1,2,3) show "\<exists>i<length m.
      (lang (m ! i) = defaultLang (languages_of m) \<and>
       finishMatch (m ! i) (defaultFinish (finishes_of m))) \<and>
      (\<forall>j<i. \<not> (lang (m ! j) = defaultLang (languages_of m) \<and>
                 finishMatch (m ! j) (defaultFinish (finishes_of m)))) \<and>
      selectedCardVersion (applyDefaults m s) = Some (m ! i)"
    by blast
next
  assume m: "m = c1 # others"
    and "\<forall>c \<in> set m. \<not> (lang c = defaultLang (languages_of m) \<and>
                         finishMatch c (defaultFinish (finishes_of m)))"
  then have "defaultCard m = None" by (simp only: defaultCard_None)
  with m show "selectedCardVersion (applyDefaults m s) = Some c1"
    by (simp add: applyDefaults_def first_def)
next
  show "selectedLanguage (applyDefaults m s) = defaultLang (languages_of m)"
    by (simp add: applyDefaults_def)
  show "selectedFinish (applyDefaults m s) = defaultFinish (finishes_of m)"
    by (simp add: applyDefaults_def)
next
  assume "selectedSet s = Some info \<and> n \<noteq> [] \<and> matchingCards s (code info) n = m \<and> m \<noteq> []"
  then show "handleCollectorNumberSelect n s = applyDefaults m (s\<lparr>selectedCollectorNumber := n\<rparr>)"
    using collectorNumberSelect_applies [of s info n] by auto
next
  assume "List.find (\<lambda>st. code st = setCode) (uniqueSets s) = Some info \<and>
    or_empty (first (srt (compareCollectorNumbers lc) (collectorNumbers info))) = n \<and>
    n \<noteq> [] \<and> matchingCards s (code info) n = m \<and> m \<noteq> []"
  then show "handleSetSelect lc srt setCode s =
        applyDefaults m
          (s\<lparr>selectedSet := Some info,
             availableCollectorNumbers := srt (compareCollectorNumbers lc) (collectorNumbers info),
             selectedCollectorNumber := n\<rparr>)"
    using setSelect_applies [of setCode s info srt lc n] by auto
qed

lemmas example_defs = example_results_def example_set_def example_ja_def example_en_def
  initial_state_def

lemma example_matching:
  "matchingCards example_results (ascii ''m21'') (ascii ''59'') = [example_ja, example_en]"
  by (simp add: matchingCards_def example_defs or_empty_def clean_def)

lemma example_languages:
  "languages_of [example_ja, example_en] = [ascii ''ja'', ascii ''en'']"
  "finishes_of [example_ja, example_en] = [ascii ''nonfoil'', ascii ''foil'']"
  by (simp_all add: languages_of_def finishes_of_def set_add_def or_en_def example_defs)

lemma example_defaults:
  "defaultLang (languages_of [example_ja, example_en]) = Some (ascii ''en'')"
  "defaultFinish (finishes_of [example_ja, example_en]) = Some (ascii ''nonfoil'')"
  by (simp_all add: example_languages [simplified] defaultLang_def defaultFinish_def)

lemma example_no_match:
  "\<forall>c \<in> set [example_ja, example_en].
     \<not> (lang c = defaultLang (languages_of [example_ja, example_en]) \<and>
        finishMatch c (defaultFinish (finishes_of [example_ja, example_en])))"
  by (simp add: example_defaults [simplified]) (simp add: finishMatch_def example_defs)

text \<open>
  Claim C7 as stated fails. The group holds a Japanese non-foil printing and then an
  English foil one; the defaults are \<open>en\<close> and \<open>nonfoil\<close> and no record matches both.
  The fallback on the language alone would resolve to the English printing; the handler
  resolves to the first record, the Japanese one.
\<close>

theorem resolve_fallback_counterexample:
  "matchingCards example_results (ascii ''m21'') (ascii ''59'') = [example_ja, example_en] \<and>
   selectedLanguage (handleCollectorNumberSelect (ascii ''59'') example_results) =
     Some (ascii ''en'') \<and>
   selectedFinish (handleCollectorNumberSelect (ascii ''59'') example_results) =
     Some (ascii ''nonfoil'') \<and>
   selectedCardVersion (handleCollectorNumberSelect (ascii ''59'') example_results) =
     Some example_ja \<and>
   spec_resolve [example_ja, example_en] (Some (ascii ''en'')) (Some (ascii ''nonfoil'')) =
     Some example_en \<and>
   lang example_ja \<noteq> Some (ascii ''en'') \<and> lang example_en = Some (ascii ''en'')"
proof -
  have s: "selectedSet example_results = Some example_set" "code example_set = ascii ''m21''"
    by (simp_all add: example_defs)
  have h: "handleCollectorNumberSelect (ascii ''59'') example_results =
      applyDefaults [example_ja, example_en]
        (example_results\<lparr>selectedCollectorNumber := ascii ''59''\<rparr>)"
    using collectorNumberSelect_applies [of example_results example_set "ascii ''59''"]
      example_matching s by simp
  have n: "defaultCard [example_ja, example_en] = None"
    using example_no_match by (simp only: defaultCard_None)
  have v: "selectedCardVersion (handleCollectorNumberSelect (ascii ''59'') example_results) =
      Some example_ja"
    unfolding h by (simp add: applyDefaults_def n first_def)
  have l: "selectedLanguage (handleCollectorNumberSelect (ascii ''59'') example_results) =
      Some (ascii ''en'')"
    unfolding h using example_defaults by (simp add: applyDefaults_def)
  have f: "selectedFinish (handleCollectorNumberSelect (ascii ''59'') example_results) =
      Some (ascii ''nonfoil'')"
    unfolding h using example_defaults by (simp add: applyDefaults_def)
  have sp: "spec_resolve [example_ja, example_en] (Some (ascii ''en'')) (Some (ascii ''nonfoil''))
      = Some example_en"
    by (simp add: spec_resolve_def finishMatch_def example_defs)
  have d: "lang example_ja \<noteq> Some (ascii ''en'') \<and> lang example_en = Some (ascii ''en'')"
    by (simp add: example_defs)
  from example_matching l f v sp d show ?thesis by blast
qed

lemma example_group_matching:
  "matchingCards example_four (ascii ''m21'') (ascii ''59'') = example_group"
  by (simp add: matchingCards_def example_four_def example_group_def example_defs
      example_en_nonfoil_def example_en_etched_def or_empty_def clean_def)

lemma example_group_defaults:
  "defaultLang (languages_of example_group) = Some (ascii ''en'')"
  "defaultFinish (finishes_of example_group) = Some (ascii ''nonfoil'')"
  by (simp_all add: example_group_def languages_of_def finishes_of_def set_add_def or_en_def
      defaultLang_def defaultFinish_def example_ja_def example_en_def example_en_nonfoil_def
      example_en_etched_def)

lemma example_group_third:
  "lang (example_group ! 2) = defaultLang (languages_of example_group) \<and>
   finishMatch (example_group ! 2) (defaultFinish (finishes_of example_group))"
  unfolding example_group_defaults
  by (simp add: example_group_def finishMatch_def example_en_nonfoil_def)

lemma example_group_before:
  "\<forall>j<2. \<not> (lang (example_group ! j) = defaultLang (languages_of example_group) \<and>
             finishMatch (example_group ! j) (defaultFinish (finishes_of example_group)))"
  unfolding example_group_defaults
  by (auto simp: less_2_cases_iff example_group_def finishMatch_def example_ja_def
      example_en_def)

lemma example_group_fourth:
  "lang example_en_etched = defaultLang (languages_of example_group) \<and>
   finishMatch example_en_etched (defaultFinish (finishes_of example_group))"
  unfolding example_group_defaults
  by (simp add: finishMatch_def example_en_etched_def)

theorem resolve_default_variant_witness:
  "selectedCardVersion (handleCollectorNumberSelect (ascii ''59'') example_four) =
     Some example_en_nonfoil \<and>
   example_group = [example_ja, example_en, example_en_nonfoil, example_en_etched] \<and>
   selectedLanguage (handleCollectorNumberSelect (ascii ''59'') example_four) =
     Some (ascii ''en'') \<and>
   selectedFinish (handleCollectorNumberSelect (ascii ''59'') example_four) =
     Some (ascii ''nonfoil'') \<and>
   selectedCardVersion (handleCollectorNumberSelect (ascii ''59'') example_results) =
     Some example_ja \<and>
   handleSetSelect lex_compare host_sort (ascii ''m21'') example_results =
     applyDefaults [example_ja, example_en]
       (example_results\<lparr>selectedSet := Some example_set,
          availableCollectorNumbers := [ascii ''59''],
          selectedCollectorNumber := ascii ''59''\<rparr>)"
proof -
  have c: "code example_set = ascii ''m21''"
    by (simp add: example_defs)
  have nums: "host_sort (compareCollectorNumbers lex_compare) (collectorNumbers example_set) =
      [ascii ''59'']"
    by (simp add: host_sort_def example_defs)

  \<comment> \<open>four records, the first match in third place\<close>
  note four = resolve_default_variant
    [where m = example_group and ?c1.0 = example_ja
       and others = "[example_en, example_en_nonfoil, example_en_etched]"
       and s = "example_four\<lparr>selectedCollectorNumber := ascii ''59''\<rparr>"]
  note four_handler = resolve_default_variant
    [where m = example_group and s = example_four and info = example_set
       and n = "ascii ''59''"]
  have g: "example_group = example_ja # [example_en, example_en_nonfoil, example_en_etched]"
    by (simp add: example_group_def)
  have third: "2 < length example_group \<and>
      (lang (example_group ! 2) = defaultLang (languages_of example_group) \<and>
       finishMatch (example_group ! 2) (defaultFinish (finishes_of example_group))) \<and>
      (\<forall>j<2. \<not> (lang (example_group ! j) = defaultLang (languages_of example_group) \<and>
                 finishMatch (example_group ! j) (defaultFinish (finishes_of example_group))))"
    using example_group_third example_group_before by (simp add: example_group_def)
  note parts = four [THEN conjunct1, THEN mp, OF g]
  from parts [THEN conjunct1, THEN spec, where x = 2] third
  have v4: "selectedCardVersion (applyDefaults example_group
      (example_four\<lparr>selectedCollectorNumber := ascii ''59''\<rparr>)) = Some (example_group ! 2)"
    by (rule mp)
  have l4: "selectedLanguage (applyDefaults example_group
      (example_four\<lparr>selectedCollectorNumber := ascii ''59''\<rparr>)) =
      defaultLang (languages_of example_group)"
    by (rule parts [THEN conjunct2, THEN conjunct2, THEN conjunct2, THEN conjunct1])
  have f4: "selectedFinish (applyDefaults example_group
      (example_four\<lparr>selectedCollectorNumber := ascii ''59''\<rparr>)) =
      defaultFinish (finishes_of example_group)"
    by (rule parts [THEN conjunct2, THEN conjunct2, THEN conjunct2, THEN conjunct2])
  have s4: "selectedSet example_four = Some example_set \<and> ascii ''59'' \<noteq> [] \<and>
      matchingCards example_four (code example_set) (ascii ''59'') = example_group \<and>
      example_group \<noteq> []"
    using example_group_matching c by (simp add: example_four_def example_defs example_group_def)
  from four_handler [THEN conjunct2, THEN conjunct1] s4
  have h4: "handleCollectorNumberSelect (ascii ''59'') example_four =
      applyDefaults example_group (example_four\<lparr>selectedCollectorNumber := ascii ''59''\<rparr>)"
    by (rule mp)
  have p1: "selectedCardVersion (handleCollectorNumberSelect (ascii ''59'') example_four) =
      Some example_en_nonfoil"
    unfolding h4 v4 by (simp add: example_group_def)
  have p2: "selectedLanguage (handleCollectorNumberSelect (ascii ''59'') example_four) =
      Some (ascii ''en'')"
    unfolding h4 l4 by (rule example_group_defaults)
  have p3: "selectedFinish (handleCollectorNumberSelect (ascii ''59'') example_four) =
      Some (ascii ''nonfoil'')"
    unfolding h4 f4 by (rule example_group_defaults)

  \<comment> \<open>two records, none matching both defaults\<close>
  note two = resolve_default_variant
    [where m = "[example_ja, example_en]" and ?c1.0 = example_ja and others = "[example_en]"
       and s = "example_results\<lparr>selectedCollectorNumber := ascii ''59''\<rparr>"]
  note two_handler = resolve_default_variant
    [where m = "[example_ja, example_en]" and s = example_results and info = example_set
       and n = "ascii ''59''" and setCode = "ascii ''m21''" and srt = host_sort
       and lc = lex_compare]
  note parts2 = two [THEN conjunct1, THEN mp, OF refl]
  from parts2 [THEN conjunct2, THEN conjunct2, THEN conjunct1] example_no_match
  have v2: "selectedCardVersion (applyDefaults [example_ja, example_en]
      (example_results\<lparr>selectedCollectorNumber := ascii ''59''\<rparr>)) = Some example_ja"
    by (rule mp)
  have s2: "selectedSet example_results = Some example_set \<and> ascii ''59'' \<noteq> [] \<and>
      matchingCards example_results (code example_set) (ascii ''59'') =
        [example_ja, example_en] \<and>
      [example_ja, example_en] \<noteq> []"
    using example_matching c by (simp add: example_defs)
  from two_handler [THEN conjunct2, THEN conjunct1] s2
  have h2: "handleCollectorNumberSelect (ascii ''59'') example_results =
      applyDefaults [example_ja, example_en]
        (example_results\<lparr>selectedCollectorNumber := ascii ''59''\<rparr>)"
    by (rule mp)
  have p4: "selectedCardVersion (handleCollectorNumberSelect (ascii ''59'') example_results) =
      Some example_ja"
    unfolding h2 by (rule v2)
  have s3: "List.find (\<lambda>st. code st = ascii ''m21'') (uniqueSets example_results) =
        Some example_set \<and>
      or_empty (first (host_sort (compareCollectorNumbers lex_compare)
        (collectorNumbers example_set))) = ascii ''59'' \<and>
      ascii ''59'' \<noteq> [] \<and>
      matchingCards example_results (code example_set) (ascii ''59'') =
        [example_ja, example_en] \<and>
      [example_ja, example_en] \<noteq> []"
    using example_matching c
    by (simp add: host_sort_def first_def or_empty_def example_defs)
  from two_handler [THEN conjunct2, THEN conjunct2] s3
  have "handleSetSelect lex_compare host_sort (ascii ''m21'') example_results =
      applyDefaults [example_ja, example_en]
        (example_results\<lparr>selectedSet := Some example_set,
          availableCollectorNumbers :=
            host_sort (compareCollectorNumbers lex_compare) (collectorNumbers example_set),
          selectedCollectorNumber := ascii ''59''\<rparr>)"
    by (rule mp)
  then have p5: "handleSetSelect lex_compare host_sort (ascii ''m21'') example_results =
      applyDefaults [example_ja, example_en]
        (example_results\<lparr>selectedSet := Some example_set,
          availableCollectorNumbers := [ascii ''59''],
          selectedCollectorNumber := ascii ''59''\<rparr>)"
    unfolding nums .
  have p0: "example_group = [example_ja, example_en, example_en_nonfoil, example_en_etched]"
    by (rule example_group_def)
  from p1 p0 p2 p3 p4 p5 show ?thesis by blast
qed

lemma path_ok_same:
  "path_ok s \<Longrightarrow> selectedSet s' = selectedSet s \<Longrightarrow>
   selectedCollectorNumber s' = selectedCollectorNumber s \<Longrightarrow>
   selectedLanguage s' = selectedLanguage s \<Longrightarrow> selectedFinish s' = selectedFinish s \<Longrightarrow>
   selectedCardVersion s' = selectedCardVersion s \<Longrightarrow> path_ok s'"
  by (simp add: path_ok_def)

lemma path_ok_reset: "path_ok (reset_selection s)"
  by (simp add: path_ok_def reset_selection_def)

lemma selection_clearTimeout [simp]:
  "selectedSet (clearTimeout i s) = selectedSet s"
  "selectedCollectorNumber (clearTimeout i s) = selectedCollectorNumber s"
  "selectedLanguage (clearTimeout i s) = selectedLanguage s"
  "selectedFinish (clearTimeout i s) = selectedFinish s"
  "selectedCardVersion (clearTimeout i s) = selectedCardVersion s"
  by (simp_all add: clearTimeout_def)

lemma selection_debounced [simp]:
  "selectedSet (debouncedAutocomplete now q s) = selectedSet s"
  "selectedCollectorNumber (debouncedAutocomplete now q s) = selectedCollectorNumber s"
  "selectedLanguage (debouncedAutocomplete now q s) = selectedLanguage s"
  "selectedFinish (debouncedAutocomplete now q s) = selectedFinish s"
  "selectedCardVersion (debouncedAutocomplete now q s) = selectedCardVersion s"
  by (cases "debounceTimeout s"; simp add: debouncedAutocomplete_def Let_def)+

lemma path_ok_clear: "path_ok (handleClear s)"
proof -
  define s1 where "s1 = (reset_selection s)\<lparr>searchTerm := [], suggestions := []\<rparr>"
  have ok1: "path_ok s1"
    by (rule path_ok_same [OF path_ok_reset [of s]]) (simp_all add: s1_def)
  have eq: "handleClear s = (case debounceTimeout s1 of None \<Rightarrow> s1 | Some i \<Rightarrow> clearTimeout i s1)"
    unfolding handleClear_def Let_def s1_def by (rule refl)
  show ?thesis
  proof (cases "debounceTimeout s1")
    case None
    with ok1 show ?thesis unfolding eq by simp
  next
    case (Some i)
    have "path_ok (clearTimeout i s1)"
      by (rule path_ok_same [OF ok1]) simp_all
    with Some show ?thesis unfolding eq by simp
  qed
qed

lemma path_ok_change: "path_ok s \<Longrightarrow> path_ok (handleAutocompleteChange now v s)"
proof -
  assume ok: "path_ok s"
  define s2 where "s2 = (if v \<noteq> first_name (searchResults s) \<and> searchResults s \<noteq> []
             then reset_selection (s\<lparr>searchTerm := v\<rparr>) else s\<lparr>searchTerm := v\<rparr>)"
  have "path_ok (s\<lparr>searchTerm := v\<rparr>)"
    by (rule path_ok_same [OF ok]) simp_all
  then have ok2: "path_ok s2"
    by (simp add: s2_def path_ok_reset)
  have eq: "handleAutocompleteChange now v s =
      (if v \<noteq> [] then debouncedAutocomplete now v s2 else s2\<lparr>suggestions := []\<rparr>)"
    by (simp add: handleAutocompleteChange_def Let_def s2_def)
  have a: "path_ok (debouncedAutocomplete now v s2)"
    by (rule path_ok_same [OF ok2]) simp_all
  have b: "path_ok (s2\<lparr>suggestions := []\<rparr>)"
    by (rule path_ok_same [OF ok2]) simp_all
  from a b show ?thesis unfolding eq by simp
qed

lemma selection_applyDefaults [simp]:
  "selectedSet (applyDefaults m s) = selectedSet s"
  "selectedCollectorNumber (applyDefaults m s) = selectedCollectorNumber s"
  by (simp_all add: applyDefaults_def)

lemma path_ok_number:
  "selectedSet s \<noteq> None \<Longrightarrow> selectedCollectorNumber s \<noteq> [] \<Longrightarrow> path_ok s"
  by (simp add: path_ok_def)

lemma path_ok_setSelect:
  assumes "c \<in> code ` set (uniqueSets s)"
  shows "path_ok (handleSetSelect lc srt c s)"
proof -
  from assms obtain info where f: "List.find (\<lambda>st. code st = c) (uniqueSets s) = Some info"
    by (cases "List.find (\<lambda>st. code st = c) (uniqueSets s)") (auto simp: find_None_iff)
  define n where "n = or_empty (first (srt (compareCollectorNumbers lc) (collectorNumbers info)))"
  show ?thesis
  proof (cases "n = []")
    case True
    with f show ?thesis
      by (simp add: handleSetSelect_def Let_def n_def [symmetric] path_ok_def)
  next
    case False
    have "selectedSet (handleSetSelect lc srt c s) \<noteq> None"
      using f False by (simp add: handleSetSelect_def Let_def n_def [symmetric])
    moreover have "selectedCollectorNumber (handleSetSelect lc srt c s) \<noteq> []"
      using f False by (simp add: handleSetSelect_def Let_def n_def [symmetric])
    ultimately show ?thesis by (rule path_ok_number)
  qed
qed

lemma path_ok_collectorNumberSelect:
  assumes "selectedSet s \<noteq> None" and "n \<noteq> []"
  shows "path_ok (handleCollectorNumberSelect n s)"
proof -
  from assms obtain info where i: "selectedSet s = Some info" by auto
  have "selectedSet (handleCollectorNumberSelect n s) \<noteq> None"
    using i assms by (simp add: handleCollectorNumberSelect_def Let_def)
  moreover have "selectedCollectorNumber (handleCollectorNumberSelect n s) \<noteq> []"
    using i assms by (simp add: handleCollectorNumberSelect_def Let_def)
  ultimately show ?thesis by (rule path_ok_number)
qed

lemma selection_languageOrFinish [simp]:
  "selectedSet (handleLanguageOrFinishChange seen s) = selectedSet s"
  "selectedCollectorNumber (handleLanguageOrFinishChange seen s) = selectedCollectorNumber s"
  by (cases "getCurrentCardVariant seen"; simp add: handleLanguageOrFinishChange_def)+

lemma path_ok_language:
  assumes "path_ok s" and "selectedCollectorNumber s \<noteq> []"
  shows "path_ok (onLanguageChange v s)" and "path_ok (onFinishChange v s)"
proof -
  from assms have "selectedSet s \<noteq> None" by (simp add: path_ok_def)
  with assms(2) show "path_ok (onLanguageChange v s)" and "path_ok (onFinishChange v s)"
    by (simp_all add: onLanguageChange_def onFinishChange_def path_ok_number)
qed

lemma path_ok_op: "path_ok s \<Longrightarrow> offered x s \<Longrightarrow> path_ok (apply_op lc srt x s)"
  by (cases x)
    (simp_all add: path_ok_setSelect path_ok_collectorNumberSelect path_ok_language
      path_ok_clear path_ok_change)

lemma path_ok_ops:
  "path_ok s \<Longrightarrow> apply_offered lc srt xs s = Some s' \<Longrightarrow> path_ok s'"
proof (induction xs arbitrary: s)
  case Nil
  then show ?case by simp
next
  case (Cons x xs)
  from Cons.prems(2) have o: "offered x s"
    and r: "apply_offered lc srt xs (apply_op lc srt x s) = Some s'"
    by (simp_all split: if_splits)
  from Cons.prems(1) o have "path_ok (apply_op lc srt x s)" by (rule path_ok_op)
  then show ?case using r by (rule Cons.IH)
qed

lemma path_ok_initial: "path_ok initial_state"
  by (simp add: path_ok_def initial_state_def)

text \<open>
  Claim C8. The operations of the variant selector are those the form offers: choosing a
  set among the listed ones; choosing a collector number, not empty, among the available
  ones, in the select that is rendered while a set is selected; choosing a language or a
  finish among the available ones, in the selects that are rendered while a collector
  number is selected; clearing the form; typing into the search field. For every sequence
  of them, in any combination, starting in a consistent state such as the initial one, the
  path never holds a collector number without a set, and without a collector number the
  language and the finish are the defaults and no variant is resolved. Clearing the form
  empties every field of the path, and choosing a set that has no collector number empties
  every later field.
\<close>

theorem selection_path_consistent:
  "path_ok initial_state \<and>
   (path_ok s \<and> apply_offered lc srt ops s = Some s' \<longrightarrow>
      (selectedCollectorNumber s' \<noteq> [] \<longrightarrow> selectedSet s' \<noteq> None) \<and>
      (selectedCollectorNumber s' = [] \<longrightarrow>
         selectedLanguage s' = Some (ascii ''en'') \<and>
         selectedFinish s' = Some (ascii ''nonfoil'') \<and>
         selectedCardVersion s' = None)) \<and>
   (selectedSet (handleClear s) = None \<and> selectedCollectorNumber (handleClear s) = [] \<and>
    selectedLanguage (handleClear s) = Some (ascii ''en'') \<and>
    selectedFinish (handleClear s) = Some (ascii ''nonfoil'') \<and>
    selectedCardVersion (handleClear s) = None) \<and>
   (List.find (\<lambda>st. code st = setCode) (uniqueSets s) = Some info \<and>
    or_empty (first (srt (compareCollectorNumbers lc) (collectorNumbers info))) = [] \<longrightarrow>
      selectedSet (handleSetSelect lc srt setCode s) = Some info \<and>
      selectedCollectorNumber (handleSetSelect lc srt setCode s) = [] \<and>
      selectedLanguage (handleSetSelect lc srt setCode s) = Some (ascii ''en'') \<and>
      selectedFinish (handleSetSelect lc srt setCode s) = Some (ascii ''nonfoil'') \<and>
      selectedCardVersion (handleSetSelect lc srt setCode s) = None)"
proof (intro conjI impI)
  show "path_ok initial_state" by (rule path_ok_initial)
next
  assume "path_ok s \<and> apply_offered lc srt ops s = Some s'"
  then have p: "path_ok s'" using path_ok_ops [of s lc srt ops s'] by blast
  from p show "selectedCollectorNumber s' \<noteq> [] \<Longrightarrow> selectedSet s' \<noteq> None"
    by (simp add: path_ok_def)
  from p show "selectedCollectorNumber s' = [] \<Longrightarrow> selectedLanguage s' = Some (ascii ''en'')"
    by (simp add: path_ok_def)
  from p show "selectedCollectorNumber s' = [] \<Longrightarrow> selectedFinish s' = Some (ascii ''nonfoil'')"
    by (simp add: path_ok_def)
  from p show "selectedCollectorNumber s' = [] \<Longrightarrow> selectedCardVersion s' = None"
    by (simp add: path_ok_def)
next
  have c: "selectedSet (handleClear s) = None \<and> selectedCollectorNumber (handleClear s) = [] \<and>
    selectedLanguage (handleClear s) = Some (ascii ''en'') \<and>
    selectedFinish (handleClear s) = Some (ascii ''nonfoil'') \<and>
    selectedCardVersion (handleClear s) = None"
    by (cases "debounceTimeout s") (simp_all add: handleClear_def Let_def reset_selection_def)
  from c show "selectedSet (handleClear s) = None" by blast
  from c show "selectedCollectorNumber (handleClear s) = []" by blast
  from c show "selectedLanguage (handleClear s) = Some (ascii ''en'')" by blast
  from c show "selectedFinish (handleClear s) = Some (ascii ''nonfoil'')" by blast
  from c show "selectedCardVersion (handleClear s) = None" by blast
next
  assume a: "List.find (\<lambda>st. code st = setCode) (uniqueSets s) = Some info \<and>
    or_empty (first (srt (compareCollectorNumbers lc) (collectorNumbers info))) = []"
  then have e: "handleSetSelect lc srt setCode s =
      s\<lparr>selectedSet := Some info,
        availableCollectorNumbers := srt (compareCollectorNumbers lc) (collectorNumbers info),
        selectedCollectorNumber := [], selectedCardVersion := None,
        selectedLanguage := Some (ascii ''en''), selectedFinish := Some (ascii ''nonfoil''),
        availableLanguages := [], availableFinishes := []\<rparr>"
    by (simp add: handleSetSelect_def Let_def)
  show "selectedSet (handleSetSelect lc srt setCode s) = Some info" unfolding e by simp
  show "selectedCollectorNumber (handleSetSelect lc srt setCode s) = []" unfolding e by simp
  show "selectedLanguage (handleSetSelect lc srt setCode s) = Some (ascii ''en'')"
    unfolding e by simp
  show "selectedFinish (handleSetSelect lc srt setCode s) = Some (ascii ''nonfoil'')"
    unfolding e by simp
  show "selectedCardVersion (handleSetSelect lc srt setCode s) = None" unfolding e by simp
qed

lemma example_found_matching:
  "matchingCards example_found (ascii ''m21'') (ascii ''59'') = [example_ja, example_en]"
  by (simp add: matchingCards_def example_found_def example_defs or_empty_def clean_def)

lemma example_step1:
  "handleSetSelect lex_compare host_sort (ascii ''m21'') example_found =
     applyDefaults [example_ja, example_en]
       (example_found\<lparr>selectedSet := Some example_set,
          availableCollectorNumbers := [ascii ''59''],
          selectedCollectorNumber := ascii ''59''\<rparr>)"
proof -
  have fd: "List.find (\<lambda>st. code st = ascii ''m21'') (uniqueSets example_found) = Some example_set"
    by (simp add: example_found_def example_defs)
  have c: "code example_set = ascii ''m21''"
    by (simp add: example_defs)
  have nums: "host_sort (compareCollectorNumbers lex_compare) (collectorNumbers example_set) =
      [ascii ''59'']"
    by (simp add: host_sort_def example_defs)
  have lo: "or_empty (first (host_sort (compareCollectorNumbers lex_compare)
      (collectorNumbers example_set))) = ascii ''59''"
    by (simp add: nums first_def or_empty_def)
  from setSelect_applies [of "ascii ''m21''" example_found example_set host_sort lex_compare
      "ascii ''59''"] fd lo example_found_matching c nums
  show ?thesis by simp
qed

lemma available_languageOrFinish [simp]:
  "availableLanguages (handleLanguageOrFinishChange seen s) = availableLanguages s"
  "availableFinishes (handleLanguageOrFinishChange seen s) = availableFinishes s"
  by (cases "getCurrentCardVariant seen"; simp add: handleLanguageOrFinishChange_def)+

lemma example_run:
  "\<exists>s'. apply_offered lex_compare host_sort example_ops example_found = Some s' \<and>
        selectedCollectorNumber s' = ascii ''59''"
proof -
  define s1 where "s1 = handleSetSelect lex_compare host_sort (ascii ''m21'') example_found"
  define s2 where "s2 = handleCollectorNumberSelect (ascii ''59'') s1"
  define s3 where "s3 = onLanguageChange (ascii ''ja'') s2"
  define s4 where "s4 = onFinishChange (ascii ''foil'') s3"
  have o1: "offered (SetSelect (ascii ''m21'')) example_found"
    by (simp add: example_found_def example_defs)
  have f1: "selectedSet s1 = Some example_set" "availableCollectorNumbers s1 = [ascii ''59'']"
    "searchResults s1 = [example_ja, example_en]"
    unfolding s1_def example_step1 by (simp_all add: applyDefaults_def example_found_def)
  have o2: "offered (CollectorNumberSelect (ascii ''59'')) s1"
    by (simp add: f1)
  have m: "matchingCards s1 (code example_set) (ascii ''59'') = [example_ja, example_en]"
    by (simp add: matchingCards_def f1 or_empty_def clean_def example_defs)
  have e2: "s2 = applyDefaults [example_ja, example_en] (s1\<lparr>selectedCollectorNumber := ascii ''59''\<rparr>)"
    unfolding s2_def
    using collectorNumberSelect_applies [of s1 example_set "ascii ''59''"] f1 m by simp
  have f2: "selectedCollectorNumber s2 = ascii ''59''"
    "availableLanguages s2 = [ascii ''ja'', ascii ''en'']"
    "availableFinishes s2 = [ascii ''nonfoil'', ascii ''foil'']"
    unfolding e2 using example_languages by (simp_all add: applyDefaults_def)
  have o3: "offered (LanguageChange (ascii ''ja'')) s2"
    using f2 by simp
  have f3: "selectedCollectorNumber s3 = ascii ''59''"
    "availableFinishes s3 = [ascii ''nonfoil'', ascii ''foil'']"
    unfolding s3_def onLanguageChange_def using f2 by simp_all
  have o4: "offered (FinishChange (ascii ''foil'')) s3"
    using f3 by simp
  have f4: "selectedCollectorNumber s4 = ascii ''59''"
    unfolding s4_def onFinishChange_def using f3 by simp
  have "apply_offered lex_compare host_sort example_ops example_found = Some s4"
    using o1 o2 o3 o4
    by (simp add: example_ops_def s1_def s2_def s3_def s4_def)
  with f4 show ?thesis by blast
qed

theorem selection_path_consistent_witness:
  "(\<exists>s'. apply_offered lex_compare host_sort example_ops example_found = Some s' \<and>
         selectedCollectorNumber s' = ascii ''59'' \<and> selectedSet s' \<noteq> None) \<and>
   selectedSet (handleClear example_results) = None \<and>
   selectedCollectorNumber (handleClear example_results) = [] \<and>
   selectedCollectorNumber
     (handleSetSelect lex_compare host_sort (ascii ''plist'') example_unnumbered) = [] \<and>
   selectedLanguage
     (handleSetSelect lex_compare host_sort (ascii ''plist'') example_unnumbered) =
     Some (ascii ''en'') \<and>
   selectedCardVersion
     (handleSetSelect lex_compare host_sort (ascii ''plist'') example_unnumbered) = None"
proof -
  from example_run obtain s'
    where r: "apply_offered lex_compare host_sort example_ops example_found = Some s'"
      and n: "selectedCollectorNumber s' = ascii ''59''"
    by blast
  have p: "path_ok example_found"
    by (simp add: path_ok_def example_found_def initial_state_def)
  have ne: "selectedCollectorNumber s' \<noteq> []"
    using n by simp
  note a = selection_path_consistent
    [where s = example_found and lc = lex_compare and srt = host_sort and ops = example_ops
       and s' = s']
  from a p r ne have "selectedSet s' \<noteq> None"
    by blast
  with r n have first_part:
    "\<exists>s'. apply_offered lex_compare host_sort example_ops example_found = Some s' \<and>
         selectedCollectorNumber s' = ascii ''59'' \<and> selectedSet s' \<noteq> None"
    by blast
  note b = selection_path_consistent [where s = example_results]
  from b have clear_part: "selectedSet (handleClear example_results) = None \<and>
      selectedCollectorNumber (handleClear example_results) = []"
    by blast
  define info where "info = \<lparr>code = ascii ''plist'', set_info_name = ascii ''The List'',
      cards = [], collectorNumbers = []\<rparr>"
  have fd: "List.find (\<lambda>st. code st = ascii ''plist'') (uniqueSets example_unnumbered) = Some info"
    by (simp add: example_unnumbered_def info_def)
  have lo: "or_empty (first (host_sort (compareCollectorNumbers lex_compare)
      (collectorNumbers info))) = []"
    by (simp add: info_def host_sort_def first_def or_empty_def)
  note c = selection_path_consistent
    [where s = example_unnumbered and lc = lex_compare and srt = host_sort
       and setCode = "ascii ''plist''" and info = info]
  from c fd lo have set_part:
    "selectedCollectorNumber
       (handleSetSelect lex_compare host_sort (ascii ''plist'') example_unnumbered) = [] \<and>
     selectedLanguage
       (handleSetSelect lex_compare host_sort (ascii ''plist'') example_unnumbered) =
       Some (ascii ''en'') \<and>
     selectedCardVersion
       (handleSetSelect lex_compare host_sort (ascii ''plist'') example_unnumbered) = None"
    by blast
  from first_part clear_part set_part show ?thesis by blast
qed


end
